theory Spec2Isabelle
  imports Complex_Main "HOL-Library.Sublist"
begin

section \<open>Values of the status payload\<close>

text \<open>
  The status payload is a Python \<^verbatim>\<open>dict\<close> produced by \<^verbatim>\<open>_pb_to_dict\<close>: string keys,
  values that are \<^verbatim>\<open>None\<close>, booleans, integers, floats, strings, lists or nested dicts.
  A float is the exact rational value of the binary64 number, or one of the three special
  values; comparisons between floats are comparisons of these values.  A dict is an
  association list whose first binding of a key is the one a lookup sees.
\<close>

datatype pyfloat = Fin rat | PosInf | NegInf | NaN

datatype pyval =
    PNone
  | PBool bool
  | PInt int
  | PFloat pyfloat
  | PStr string
  | PList "pyval list"
  | PDict "(string \<times> pyval) list"

type_synonym pydict = "(string \<times> pyval) list"

text \<open>Python truthiness, as used by \<^verbatim>\<open>or\<close> and \<^verbatim>\<open>if\<close>.\<close>

fun truthy :: "pyval \<Rightarrow> bool" where
  "truthy PNone = False"
| "truthy (PBool b) = b"
| "truthy (PInt n) = (n \<noteq> 0)"
| "truthy (PFloat f) = (f \<noteq> Fin 0)"
| "truthy (PStr s) = (s \<noteq> [])"
| "truthy (PList xs) = (xs \<noteq> [])"
| "truthy (PDict kvs) = (kvs \<noteq> [])"

text \<open>\<^verbatim>\<open>a or b\<close>: the left operand when it is truthy, the right operand otherwise.\<close>

definition py_or :: "pyval \<Rightarrow> pyval \<Rightarrow> pyval" where
  "py_or a b = (if truthy a then a else b)"

text \<open>\<^verbatim>\<open>d.get(k)\<close> and \<^verbatim>\<open>d.get(k, default)\<close> on a dict.\<close>

definition get_default :: "pydict \<Rightarrow> string \<Rightarrow> pyval \<Rightarrow> pyval" where
  "get_default d k dflt = (case map_of d k of None \<Rightarrow> dflt | Some v \<Rightarrow> v)"

definition get :: "pydict \<Rightarrow> string \<Rightarrow> pyval" where
  "get d k = get_default d k PNone"

text \<open>
  The nested lookup helper \<^verbatim>\<open>g(d, *keys)\<close> of \<^verbatim>\<open>check_alignment\<close> and \<^verbatim>\<open>do_status\<close>:
  \<^verbatim>\<open>None\<close> as soon as the current value is not a dict or lacks the key.
\<close>

fun g :: "pyval \<Rightarrow> string list \<Rightarrow> pyval" where
  "g cur [] = cur"
| "g (PDict kvs) (k # ks) = (case map_of kvs k of None \<Rightarrow> PNone | Some v \<Rightarrow> g v ks)"
| "g _ (k # ks) = PNone"

text \<open>\<^verbatim>\<open>a > b\<close> on floats: false whenever a NaN is involved.\<close>

fun float_gt :: "pyfloat \<Rightarrow> pyfloat \<Rightarrow> bool" where
  "float_gt (Fin a) (Fin b) = (b < a)"
| "float_gt (Fin a) NegInf = True"
| "float_gt PosInf (Fin b) = True"
| "float_gt PosInf NegInf = True"
| "float_gt _ _ = False"

subsection \<open>Builtins of the interpreter\<close>

text \<open>
  The builtins the program calls on payload values are a parameter of the model, so that
  every theorem holds whatever they compute: \<^verbatim>\<open>str(v)\<close> on a value that is not a string,
  \<^verbatim>\<open>s.upper()\<close>, \<^verbatim>\<open>float(s)\<close> on a string and \<^verbatim>\<open>float(n)\<close> on an integer (\<open>None\<close> when
  it raises), the format specification \<^verbatim>\<open>:.<d>f\<close>, float multiplication and
  \<^verbatim>\<open>round(x, d)\<close>.
\<close>

record runtime =
  str_other :: "pyval \<Rightarrow> string"
  upper :: "string \<Rightarrow> string"
  float_of_str :: "string \<Rightarrow> pyfloat option"
  float_of_int :: "int \<Rightarrow> pyfloat option"
  format_f :: "nat \<Rightarrow> pyfloat \<Rightarrow> string"
  float_mul :: "pyfloat \<Rightarrow> pyfloat \<Rightarrow> pyfloat"
  round_nd :: "pyfloat \<Rightarrow> nat \<Rightarrow> pyfloat"

definition py_str :: "runtime \<Rightarrow> pyval \<Rightarrow> string" where
  "py_str rt v = (case v of PStr s \<Rightarrow> s | _ \<Rightarrow> str_other rt v)"

text \<open>
  \<^verbatim>\<open>float(v)\<close> inside \<^verbatim>\<open>try ... except Exception\<close>: \<open>None\<close> stands for the exception
  (\<^verbatim>\<open>TypeError\<close> on \<^verbatim>\<open>None\<close>, lists and dicts; \<^verbatim>\<open>ValueError\<close> or \<^verbatim>\<open>OverflowError\<close> from the
  builtin).  A bool is an int: \<^verbatim>\<open>float(True)\<close> is \<^verbatim>\<open>1.0\<close>.
\<close>

definition py_float :: "runtime \<Rightarrow> pyval \<Rightarrow> pyfloat option" where
  "py_float rt v =
     (case v of
        PFloat f \<Rightarrow> Some f
      | PBool b \<Rightarrow> Some (Fin (if b then 1 else 0))
      | PInt n \<Rightarrow> float_of_int rt n
      | PStr s \<Rightarrow> float_of_str rt s
      | _ \<Rightarrow> None)"

section \<open>The alignment classifier\<close>

datatype verdict = ALIGNED | NOT_OK | UNKNOWN

text \<open>The two locals that the rules of \<^verbatim>\<open>check_alignment\<close> update.\<close>

record cstate =
  cs_verdict :: verdict
  cs_reasons :: "string list"

text \<open>The dict that \<^verbatim>\<open>check_alignment\<close> returns.\<close>

record alignment =
  aligned :: bool
  verdict_of :: verdict
  explain :: string
  dish_state :: pyval
  boresight_error_deg :: "pyfloat option"
  obstruction_fraction :: "pyfloat option"
  currently_obstructed :: pyval
  reasons :: "string list"

definition ok_states :: "string set" where
  "ok_states = {''ONLINE'', ''CONNECTED''}"

definition bad_states :: "string set" where
  "bad_states = {''STOWED'', ''STOWING'', ''UNSTOWING'', ''BOOTING'', ''STARTING'',
     ''CALIBRATING'', ''SEARCHING'', ''NO_SATS'', ''IDLE''}"

text \<open>
  The binary64 values of the literals \<^verbatim>\<open>2.5\<close>, \<^verbatim>\<open>0.10\<close> and \<^verbatim>\<open>0.02\<close>.  The first is
  exact; the other two are the doubles nearest to one tenth and to one fiftieth.
\<close>

definition BORESIGHT_MAX :: pyfloat where
  "BORESIGHT_MAX = Fin (5 / 2)"

definition OBSTRUCTION_HIGH :: pyfloat where
  "OBSTRUCTION_HIGH = Fin (3602879701896397 / 36028797018963968)"

definition OBSTRUCTION_MED :: pyfloat where
  "OBSTRUCTION_MED = Fin (5764607523034235 / 288230376151711744)"

text \<open>The degree sign of the boresight reason, as its two UTF-8 bytes.\<close>

definition degree_sign :: string where
  "degree_sign = [char_of (0xC2 :: nat), char_of (0xB0 :: nat)]"

subsection \<open>Resolution of the raw fields\<close>

definition resolve_dish_state :: "pydict \<Rightarrow> pyval" where
  "resolve_dish_state status_raw =
     py_or (get status_raw ''dish_state'')
       (py_or (get status_raw ''state'')
          (g (PDict status_raw) [''status'', ''dish_state'']))"

definition resolve_boresight :: "pydict \<Rightarrow> pyval" where
  "resolve_boresight status_raw =
     py_or (get status_raw ''boresight_error_deg'')
       (py_or (g (PDict status_raw) [''alignment_stats'', ''boresight_error_deg''])
          (py_or (g (PDict status_raw) [''pointing_stats'', ''boresight_error_deg''])
             (g (PDict status_raw) [''pointing'', ''boresight_error_deg''])))"

definition resolve_currently_obstructed :: "pydict \<Rightarrow> pyval" where
  "resolve_currently_obstructed status_raw =
     py_or (get status_raw ''currently_obstructed'')
       (g (PDict status_raw) [''obstruction_stats'', ''currently_obstructed''])"

definition resolve_obstruction_fraction :: "pydict \<Rightarrow> pyval" where
  "resolve_obstruction_fraction status_raw =
     py_or (get status_raw ''obstruction_fraction'')
       (py_or (g (PDict status_raw) [''obstruction_stats'', ''fraction_obstructed''])
          (g (PDict status_raw) [''obstruction_stats'', ''obstruction_fraction'']))"

subsection \<open>The four rules\<close>

definition dish_state_str :: "runtime \<Rightarrow> pyval \<Rightarrow> string" where
  "dish_state_str rt ds = (if ds \<noteq> PNone then upper rt (py_str rt ds) else [])"

text \<open>Rule 1: the \<^verbatim>\<open>if / elif / else\<close> on the upper-cased dish state.\<close>

definition rule_state :: "string \<Rightarrow> cstate \<Rightarrow> cstate" where
  "rule_state s st =
     (if s \<in> ok_states then st\<lparr>cs_verdict := ALIGNED\<rparr>
      else if s \<in> bad_states \<or> s \<noteq> [] then
        st\<lparr>cs_verdict := NOT_OK, cs_reasons := cs_reasons st @ [''state='' @ s]\<rparr>
      else
        st\<lparr>cs_verdict := UNKNOWN, cs_reasons := cs_reasons st @ [''state=unknown'']\<rparr>)"

text \<open>
  Rule 2.  \<open>boresight_value\<close> is the local \<^verbatim>\<open>boresight_val\<close>: \<open>None\<close> when the resolved
  value is \<^verbatim>\<open>None\<close> or \<^verbatim>\<open>float\<close> raises.
\<close>

definition boresight_value :: "runtime \<Rightarrow> pyval \<Rightarrow> pyfloat option" where
  "boresight_value rt boresight = (if boresight \<noteq> PNone then py_float rt boresight else None)"

definition rule_boresight :: "runtime \<Rightarrow> pyval \<Rightarrow> cstate \<Rightarrow> cstate" where
  "rule_boresight rt boresight st =
     (case boresight_value rt boresight of
        None \<Rightarrow> st
      | Some v \<Rightarrow>
          if float_gt v BORESIGHT_MAX then
            st\<lparr>cs_verdict := NOT_OK,
               cs_reasons := cs_reasons st @
                 [''boresight>2.5deg ('' @ format_f rt 2 v @ degree_sign @ '')'']\<rparr>
          else st)"

text \<open>Rule 3: \<^verbatim>\<open>currently_obstructed is True\<close> holds of the boolean \<^verbatim>\<open>True\<close> only.\<close>

definition rule_obstructed :: "pyval \<Rightarrow> cstate \<Rightarrow> cstate" where
  "rule_obstructed co st =
     (if co = PBool True then
        st\<lparr>cs_verdict := NOT_OK, cs_reasons := cs_reasons st @ [''currently_obstructed=true'']\<rparr>
      else st)"

text \<open>Rule 4.  \<open>obstruction_value\<close> is the local \<^verbatim>\<open>obstruction_val\<close>.\<close>

definition obstruction_value :: "runtime \<Rightarrow> pyval \<Rightarrow> pyfloat option" where
  "obstruction_value rt ofr = (if ofr \<noteq> PNone then py_float rt ofr else None)"

definition rule_obstruction :: "runtime \<Rightarrow> pyval \<Rightarrow> cstate \<Rightarrow> cstate" where
  "rule_obstruction rt ofr st =
     (case obstruction_value rt ofr of
        None \<Rightarrow> st
      | Some v \<Rightarrow>
          if float_gt v OBSTRUCTION_HIGH then
            st\<lparr>cs_verdict := NOT_OK,
               cs_reasons := cs_reasons st @ [''obstruction=HIGH ('' @ format_f rt 3 v @ '')'']\<rparr>
          else if float_gt v OBSTRUCTION_MED then
            st\<lparr>cs_verdict := NOT_OK,
               cs_reasons := cs_reasons st @ [''obstruction=MED ('' @ format_f rt 3 v @ '')'']\<rparr>
          else st)"

subsection \<open>The classifier\<close>

text \<open>The state of the two locals after each rule, in the order of the source.\<close>

definition init_state :: cstate where
  "init_state = \<lparr>cs_verdict = UNKNOWN, cs_reasons = []\<rparr>"

definition after_rule1 :: "runtime \<Rightarrow> pydict \<Rightarrow> cstate" where
  "after_rule1 rt status_raw =
     rule_state (dish_state_str rt (resolve_dish_state status_raw)) init_state"

definition after_rule2 :: "runtime \<Rightarrow> pydict \<Rightarrow> cstate" where
  "after_rule2 rt status_raw =
     rule_boresight rt (resolve_boresight status_raw) (after_rule1 rt status_raw)"

definition after_rule3 :: "runtime \<Rightarrow> pydict \<Rightarrow> cstate" where
  "after_rule3 rt status_raw =
     rule_obstructed (resolve_currently_obstructed status_raw) (after_rule2 rt status_raw)"

definition after_rule4 :: "runtime \<Rightarrow> pydict \<Rightarrow> cstate" where
  "after_rule4 rt status_raw =
     rule_obstruction rt (resolve_obstruction_fraction status_raw) (after_rule3 rt status_raw)"

text \<open>\<^verbatim>\<open>"; ".join(reasons)\<close>.\<close>

fun join_semicolon :: "string list \<Rightarrow> string" where
  "join_semicolon [] = []"
| "join_semicolon [r] = r"
| "join_semicolon (r # rs) = r @ ''; '' @ join_semicolon rs"

definition check_alignment :: "runtime \<Rightarrow> pydict \<Rightarrow> alignment" where
  "check_alignment rt status_raw =
     (let st = after_rule4 rt status_raw;
          al = (cs_verdict st = ALIGNED)
      in \<lparr>aligned = al,
          verdict_of = (if al then ALIGNED
                        else if cs_verdict st \<noteq> UNKNOWN then NOT_OK else UNKNOWN),
          explain = (if al then ''OK''
                     else if cs_reasons st \<noteq> [] then join_semicolon (cs_reasons st)
                     else ''Not okay''),
          dish_state = resolve_dish_state status_raw,
          boresight_error_deg = boresight_value rt (resolve_boresight status_raw),
          obstruction_fraction = obstruction_value rt (resolve_obstruction_fraction status_raw),
          currently_obstructed = resolve_currently_obstructed status_raw,
          reasons = cs_reasons st\<rparr>)"

section \<open>The status facade\<close>

text \<open>
  What the telemetry collaborator does when \<^verbatim>\<open>do_status\<close> runs: the import fails with a
  message, neither status function exists, the call (or the creation of the context) raises
  with a message, or it returns a payload, which \<^verbatim>\<open>_pb_to_dict\<close> turns into a dict.
\<close>

datatype fetch = ImportFailed string | NoStatusFunction | FetchRaised string | Fetched pydict

text \<open>The \<^verbatim>\<open>summary\<close> dict built by \<^verbatim>\<open>do_status\<close>.\<close>

definition summary_of :: "pydict \<Rightarrow> pydict" where
  "summary_of raw =
     [(''dish_state'',
         py_or (get raw ''dish_state'')
           (py_or (get raw ''state'') (g (PDict raw) [''status'', ''dish_state'']))),
      (''pop_ping_latency_ms'',
         py_or (get raw ''pop_ping_latency_ms'') (get raw ''ping_latency_ms'')),
      (''pop_ping_drop_rate'', get raw ''pop_ping_drop_rate''),
      (''downlink_throughput_bps'',
         py_or (get raw ''downlink_throughput_bps'') (get raw ''download_throughput_bps'')),
      (''uplink_throughput_bps'',
         py_or (get raw ''uplink_throughput_bps'') (get raw ''upload_throughput_bps'')),
      (''obstruction_fraction'',
         py_or (get raw ''obstruction_fraction'')
           (py_or (g (PDict raw) [''obstruction_stats'', ''fraction_obstructed''])
              (g (PDict raw) [''obstruction_stats'', ''obstruction_fraction'']))),
      (''seconds_since_last_1s_outage'', get raw ''seconds_since_last_1s_outage''),
      (''seconds_since_last_2s_outage'', get raw ''seconds_since_last_2s_outage''),
      (''seconds_since_last_5s_outage'', get raw ''seconds_since_last_5s_outage'')]"

text \<open>The result of \<^verbatim>\<open>check_alignment\<close> as the dict it is in the source.\<close>

definition verdict_name :: "verdict \<Rightarrow> string" where
  "verdict_name v = (case v of ALIGNED \<Rightarrow> ''ALIGNED'' | NOT_OK \<Rightarrow> ''NOT_OK'' | UNKNOWN \<Rightarrow> ''UNKNOWN'')"

definition opt_float :: "pyfloat option \<Rightarrow> pyval" where
  "opt_float x = (case x of None \<Rightarrow> PNone | Some f \<Rightarrow> PFloat f)"

definition alignment_dict :: "alignment \<Rightarrow> pydict" where
  "alignment_dict a =
     [(''aligned'', PBool (aligned a)),
      (''verdict'', PStr (verdict_name (verdict_of a))),
      (''explain'', PStr (explain a)),
      (''dish_state'', dish_state a),
      (''boresight_error_deg'', opt_float (boresight_error_deg a)),
      (''obstruction_fraction'', opt_float (obstruction_fraction a)),
      (''currently_obstructed'', currently_obstructed a),
      (''reasons'', PList (map PStr (reasons a)))]"

text \<open>\<^verbatim>\<open>do_status\<close>; \<open>ts\<close> is \<^verbatim>\<open>int(time.time())\<close>.\<close>

definition do_status :: "runtime \<Rightarrow> fetch \<Rightarrow> int \<Rightarrow> pydict" where
  "do_status rt f ts =
     (case f of
        ImportFailed e \<Rightarrow>
          [(''ok'', PBool False), (''error'', PStr (''Import starlink_grpc failed: '' @ e))]
      | NoStatusFunction \<Rightarrow>
          [(''ok'', PBool False),
           (''error'', PStr ''No status function found (get_status / dish_get_status)'')]
      | FetchRaised e \<Rightarrow> [(''ok'', PBool False), (''error'', PStr e)]
      | Fetched raw \<Rightarrow>
          [(''ok'', PBool True), (''ts'', PInt ts), (''summary'', PDict (summary_of raw)),
           (''alignment'', PDict (alignment_dict (check_alignment rt raw))),
           (''raw'', PDict raw)])"

text \<open>\<^verbatim>\<open>do_keepalive\<close>, on the result \<open>r\<close> of its call of \<^verbatim>\<open>do_status\<close>.\<close>

definition keepalive_result :: "pydict \<Rightarrow> int \<Rightarrow> pydict" where
  "keepalive_result r ts =
     (if truthy (get r ''ok'') then [(''ok'', PBool True), (''ts'', PInt ts)]
      else [(''ok'', PBool False),
            (''error'', get_default r ''error'' (PStr ''keepalive failed''))])"

definition do_keepalive :: "runtime \<Rightarrow> fetch \<Rightarrow> int \<Rightarrow> int \<Rightarrow> pydict" where
  "do_keepalive rt f status_ts ts = keepalive_result (do_status rt f status_ts) ts"

text \<open>What the collaborator does when \<^verbatim>\<open>do_reset_obstruction_map\<close> runs.\<close>

datatype reset_outcome = ResetImportFailed string | ResetNotFound | ResetRaised string | ResetDone

definition do_reset_obstruction_map :: "reset_outcome \<Rightarrow> int \<Rightarrow> pydict" where
  "do_reset_obstruction_map out ts =
     (case out of
        ResetImportFailed e \<Rightarrow>
          [(''ok'', PBool False), (''error'', PStr (''Import starlink_grpc failed: '' @ e))]
      | ResetNotFound \<Rightarrow>
          [(''ok'', PBool False),
           (''error'',
            PStr ''reset_obstruction_map not found. Try: pip install --upgrade starlink-grpc-core'')]
      | ResetRaised e \<Rightarrow> [(''ok'', PBool False), (''error'', PStr e)]
      | ResetDone \<Rightarrow> [(''ok'', PBool True), (''ts'', PInt ts)])"

section \<open>The obstruction log store\<close>

text \<open>
  The backing file \<^verbatim>\<open>obstruction_5min.json\<close> as the program sees it.  Reading finds no file,
  a file that cannot be opened or decoded, a text that \<^verbatim>\<open>json.load\<close> rejects (the empty text
  of a freshly truncated file is one), or a text that parses to a value.  \<open>log_writable\<close>
  says whether \<^verbatim>\<open>open(path, "w")\<close> succeeds; when it does not, the exception leaves
  \<^verbatim>\<open>log_obstruction_fraction_5min\<close>, which has no handler around the write.
\<close>

datatype file_state = Missing | Unreadable | NotJson | Json pyval

record storage =
  log_file :: file_state
  log_writable :: bool

datatype io_error = OSError

definition MAX_KEEP :: nat where
  "MAX_KEEP = 2016"

text \<open>Lines 264 to 272: the list the append starts from.\<close>

definition load_log :: "storage \<Rightarrow> pyval list" where
  "load_log s =
     (case log_file s of
        Missing \<Rightarrow> []
      | Unreadable \<Rightarrow> []
      | NotJson \<Rightarrow> []
      | Json v \<Rightarrow> (case v of PList xs \<Rightarrow> xs | _ \<Rightarrow> []))"

text \<open>\<^verbatim>\<open>data.append(entry)\<close>, then \<^verbatim>\<open>data[-MAX_KEEP:]\<close> when the list is too long.\<close>

definition append_bounded :: "pyval list \<Rightarrow> pyval \<Rightarrow> pyval list" where
  "append_bounded data entry =
     (let data' = data @ [entry]
      in if length data' > MAX_KEEP then drop (length data' - MAX_KEEP) data' else data')"

text \<open>
  The write: \<^verbatim>\<open>open(path, "w")\<close> truncates the file itself, then \<^verbatim>\<open>json.dump\<close> fills it.
  The result lists the states the file passes through.
\<close>

definition write_log :: "pyval list \<Rightarrow> storage \<Rightarrow> io_error + storage list" where
  "write_log data s =
     (if log_writable s then Inr [s\<lparr>log_file := NotJson\<rparr>, s\<lparr>log_file := Json (PList data)\<rparr>]
      else Inl OSError)"

definition append_trace :: "pyval \<Rightarrow> storage \<Rightarrow> io_error + storage list" where
  "append_trace entry s = write_log (append_bounded (load_log s) entry) s"

definition append_sample :: "pyval \<Rightarrow> storage \<Rightarrow> io_error + storage" where
  "append_sample entry s =
     (case append_trace entry s of Inl e \<Rightarrow> Inl e | Inr states \<Rightarrow> Inr (last states))"

definition pget :: "pyval \<Rightarrow> string \<Rightarrow> pyval" where
  "pget v k = (case v of PDict d \<Rightarrow> get d k | _ \<Rightarrow> PNone)"

definition make_entry :: "runtime \<Rightarrow> string \<Rightarrow> pyfloat \<Rightarrow> pyval" where
  "make_entry rt timestamp obs_f =
     PDict [(''timestamp'', PStr timestamp),
            (''obstruction_fraction'', PFloat obs_f),
            (''obstruction_percent'', PFloat (round_nd rt (float_mul rt obs_f (Fin 100)) 3))]"

text \<open>
  \<^verbatim>\<open>log_obstruction_fraction_5min\<close>; \<open>timestamp\<close> is the ISO string of the current UTC time.
  The three early returns leave the storage as it is.
\<close>

definition log_obstruction_fraction_5min ::
  "runtime \<Rightarrow> fetch \<Rightarrow> int \<Rightarrow> string \<Rightarrow> storage \<Rightarrow> io_error + storage" where
  "log_obstruction_fraction_5min rt f ts timestamp s =
     (let status = do_status rt f ts
      in if \<not> truthy (get status ''ok'') then Inr s
         else
           let obs0 = pget (get_default status ''summary'' (PDict [])) ''obstruction_fraction'';
               obs = (if obs0 = PNone
                      then pget (get_default status ''alignment'' (PDict [])) ''obstruction_fraction''
                      else obs0)
           in if obs = PNone then Inr s
              else (case py_float rt obs of
                      None \<Rightarrow> Inr s
                    | Some obs_f \<Rightarrow> append_sample (make_entry rt timestamp obs_f) s))"

section \<open>The background scheduler\<close>

definition AUTO_KEEPALIVE_SEC :: rat where
  "AUTO_KEEPALIVE_SEC = 120"

definition RESET_TIMES :: "string list" where
  "RESET_TIMES = [''00:00'', ''12:00'']"

definition OBSTRUCTION_5MIN_SEC :: rat where
  "OBSTRUCTION_5MIN_SEC = 300"

text \<open>
  The locals of \<^verbatim>\<open>_bg_loop\<close> and the storage its logging action writes.  The two deadlines
  are values of \<^verbatim>\<open>time.time()\<close>, taken as exact numbers of seconds (the rounding of the
  float addition is left out).
\<close>

record world =
  next_ka :: rat
  next_obs_5min :: rat
  last_reset_times :: "string set"
  store :: storage

text \<open>
  What one iteration of the loop observes: \<^verbatim>\<open>time.time()\<close>, the UTC wall clock of
  \<^verbatim>\<open>datetime.now\<close> in whole seconds since the epoch, and what the collaborator and the
  clock give to each action, should the action run.
\<close>

record tick =
  tk_now :: rat
  tk_utc :: nat
  tk_ka_fetch :: fetch
  tk_ka_status_ts :: int
  tk_ka_ts :: int
  tk_reset :: reset_outcome
  tk_reset_ts :: int
  tk_log_fetch :: fetch
  tk_log_ts :: int
  tk_log_timestamp :: string

text \<open>The calls an iteration makes, with what they returned.\<close>

datatype event = KeepAlive pydict | Reset pydict | ObstructionLog

text \<open>\<^verbatim>\<open>strftime("%H:%M")\<close> of a UTC time given in seconds since the epoch.\<close>

definition two_digits :: "nat \<Rightarrow> string" where
  "two_digits n = [char_of (48 + n div 10), char_of (48 + n mod 10)]"

definition strftime_HM :: "nat \<Rightarrow> string" where
  "strftime_HM t = two_digits (t div 3600 mod 24) @ '':'' @ two_digits (t div 60 mod 60)"

definition keepalive_step :: "runtime \<Rightarrow> tick \<Rightarrow> world \<Rightarrow> event list \<times> world" where
  "keepalive_step rt tk w =
     (if tk_now tk \<ge> next_ka w then
        ([KeepAlive (do_keepalive rt (tk_ka_fetch tk) (tk_ka_status_ts tk) (tk_ka_ts tk))],
         w\<lparr>next_ka := tk_now tk + AUTO_KEEPALIVE_SEC\<rparr>)
      else ([], w))"

definition reset_step :: "tick \<Rightarrow> world \<Rightarrow> event list \<times> world" where
  "reset_step tk w =
     (let now_hm = strftime_HM (tk_utc tk)
      in if now_hm \<in> set RESET_TIMES \<and> now_hm \<notin> last_reset_times w then
           ([Reset (do_reset_obstruction_map (tk_reset tk) (tk_reset_ts tk))],
            w\<lparr>last_reset_times := insert now_hm (last_reset_times w)\<rparr>)
         else ([], w))"

definition clear_step :: "tick \<Rightarrow> world \<Rightarrow> world" where
  "clear_step tk w =
     (if strftime_HM (tk_utc tk) = ''00:01'' then w\<lparr>last_reset_times := {}\<rparr> else w)"

definition obstruction_step :: "runtime \<Rightarrow> tick \<Rightarrow> world \<Rightarrow> event list \<times> (io_error + world)" where
  "obstruction_step rt tk w =
     (if tk_now tk \<ge> next_obs_5min w then
        (case log_obstruction_fraction_5min rt (tk_log_fetch tk) (tk_log_ts tk)
                (tk_log_timestamp tk) (store w) of
           Inl e \<Rightarrow> ([ObstructionLog], Inl e)
         | Inr s \<Rightarrow>
             ([ObstructionLog],
              Inr (w\<lparr>store := s, next_obs_5min := tk_now tk + OBSTRUCTION_5MIN_SEC\<rparr>)))
      else ([], Inr w))"

text \<open>
  One iteration of the \<^verbatim>\<open>while\<close> loop: the events in the order of the calls, and the new
  locals, or the exception that leaves the loop.
\<close>

definition bg_step :: "runtime \<Rightarrow> tick \<Rightarrow> world \<Rightarrow> event list \<times> (io_error + world)" where
  "bg_step rt tk w =
     (let (ev1, w1) = keepalive_step rt tk w;
          (ev2, w2) = reset_step tk w1;
          w3 = clear_step tk w2;
          (ev3, r) = obstruction_step rt tk w3
      in (ev1 @ ev2 @ ev3, r))"

text \<open>
  The loop over the iterations that happen before the stop flag is seen: a finite list of
  ticks.  An exception ends the run.  Each call is recorded with the wall-clock second of
  its iteration.
\<close>

fun bg_loop :: "runtime \<Rightarrow> tick list \<Rightarrow> world \<Rightarrow> (nat \<times> event) list \<times> (io_error + world)" where
  "bg_loop rt [] w = ([], Inr w)"
| "bg_loop rt (tk # tks) w =
     (case bg_step rt tk w of
        (ev, Inl e) \<Rightarrow> (map (Pair (tk_utc tk)) ev, Inl e)
      | (ev, Inr w') \<Rightarrow>
          (case bg_loop rt tks w' of (evs, r) \<Rightarrow> (map (Pair (tk_utc tk)) ev @ evs, r)))"

text \<open>The locals before the first iteration; \<open>t0\<close> and \<open>t1\<close> are the two calls of \<^verbatim>\<open>time.time()\<close>.\<close>

definition bg_init :: "rat \<Rightarrow> rat \<Rightarrow> storage \<Rightarrow> world" where
  "bg_init t0 t1 s =
     \<lparr>next_ka = t0 + 2, next_obs_5min = t1 + 5, last_reset_times = {}, store = s\<rparr>"

text \<open>
  The number of resets in a record of calls, and the number of resets made on UTC day
  \<open>day\<close> (days since the epoch) while the wall clock showed \<open>hm\<close>.
\<close>

definition is_reset :: "event \<Rightarrow> bool" where
  "is_reset e = (case e of Reset r \<Rightarrow> True | _ \<Rightarrow> False)"

definition resets :: "(nat \<times> event) list \<Rightarrow> nat" where
  "resets evs = length (filter (\<lambda>(t, e). is_reset e) evs)"

definition in_minute :: "nat \<Rightarrow> string \<Rightarrow> nat \<Rightarrow> bool" where
  "in_minute day hm t = (t div 86400 = day \<and> strftime_HM t = hm)"

definition resets_at :: "nat \<Rightarrow> string \<Rightarrow> (nat \<times> event) list \<Rightarrow> nat" where
  "resets_at day hm evs = length (filter (\<lambda>(t, e). is_reset e \<and> in_minute day hm t) evs)"

section \<open>The request handler\<close>

datatype body = IndexHtml | JsonBody pydict | Bytes string | ErrorPage

record response =
  resp_code :: nat
  resp_ctype :: string
  resp_body :: body

text \<open>What a request observes: the clock and the collaborator.\<close>

record request_env =
  rq_ts :: int
  rq_fetch :: fetch
  rq_status_ts :: int
  rq_reset :: reset_outcome

definition json_response :: "pydict \<Rightarrow> response" where
  "json_response result =
     \<lparr>resp_code = 200, resp_ctype = ''application/json; charset=utf-8'',
      resp_body = JsonBody result\<rparr>"

definition not_found :: response where
  "not_found =
     \<lparr>resp_code = 404, resp_ctype = ''text/plain; charset=utf-8'', resp_body = Bytes ''Not found''\<rparr>"

text \<open>\<^verbatim>\<open>Handler.do_GET\<close> and \<^verbatim>\<open>Handler.do_POST\<close>; \<open>p\<close> is \<^verbatim>\<open>urlparse(self.path).path\<close>.\<close>

definition do_GET :: "runtime \<Rightarrow> request_env \<Rightarrow> string \<Rightarrow> response" where
  "do_GET rt env p =
     (if p = ''/'' \<or> p = ''/index.html'' then
        \<lparr>resp_code = 200, resp_ctype = ''text/html; charset=utf-8'', resp_body = IndexHtml\<rparr>
      else if p = ''/api/health'' then
        json_response [(''ok'', PBool True), (''ts'', PInt (rq_ts env))]
      else if p = ''/api/status'' then
        json_response (do_status rt (rq_fetch env) (rq_status_ts env))
      else not_found)"

definition do_POST :: "runtime \<Rightarrow> request_env \<Rightarrow> string \<Rightarrow> response" where
  "do_POST rt env p =
     (if p = ''/api/reset'' then
        json_response (do_reset_obstruction_map (rq_reset env) (rq_ts env))
      else if p = ''/api/keepalive'' then
        json_response (do_keepalive rt (rq_fetch env) (rq_status_ts env) (rq_ts env))
      else not_found)"

text \<open>
  The dispatch of \<^verbatim>\<open>BaseHTTPRequestHandler\<close>: the method \<^verbatim>\<open>do_<METHOD>\<close> when the class
  has one, the error page 501 of the base class otherwise.
\<close>

datatype http_method = GET | POST | OtherMethod string

definition unsupported_method :: response where
  "unsupported_method =
     \<lparr>resp_code = 501, resp_ctype = ''text/html;charset=utf-8'', resp_body = ErrorPage\<rparr>"

definition handle :: "runtime \<Rightarrow> request_env \<Rightarrow> http_method \<Rightarrow> string \<Rightarrow> response" where
  "handle rt env m p =
     (case m of GET \<Rightarrow> do_GET rt env p | POST \<Rightarrow> do_POST rt env p
      | OtherMethod name \<Rightarrow> unsupported_method)"

text \<open>The API table: the recognized paths, each with the method it supports.\<close>

definition api_routes :: "(http_method \<times> string) list" where
  "api_routes =
     [(GET, ''/api/health''), (GET, ''/api/status''),
      (POST, ''/api/keepalive''), (POST, ''/api/reset'')]"

definition is_json :: "response \<Rightarrow> bool" where
  "is_json r =
     (resp_ctype r = ''application/json; charset=utf-8'' \<and>
      (case resp_body r of JsonBody d \<Rightarrow> True | _ \<Rightarrow> False))"

section \<open>Auxiliary notions for the properties\<close>

text \<open>
  A rule is a transformer of the two locals.  It fails when, started on a state whose
  verdict is \<open>ALIGNED\<close>, it leaves another verdict; its reasons are what it then appends.
\<close>

definition probe :: cstate where
  "probe = \<lparr>cs_verdict = ALIGNED, cs_reasons = []\<rparr>"

definition rule_fails :: "(cstate \<Rightarrow> cstate) \<Rightarrow> bool" where
  "rule_fails r = (cs_verdict (r probe) \<noteq> ALIGNED)"

definition rule_reasons :: "(cstate \<Rightarrow> cstate) \<Rightarrow> string list" where
  "rule_reasons r = cs_reasons (r probe)"

text \<open>The four rules of the classifier on a payload, in the order of evaluation.\<close>

definition rules :: "runtime \<Rightarrow> pydict \<Rightarrow> (cstate \<Rightarrow> cstate) list" where
  "rules rt status_raw =
     [rule_state (dish_state_str rt (resolve_dish_state status_raw)),
      rule_boresight rt (resolve_boresight status_raw),
      rule_obstructed (resolve_currently_obstructed status_raw),
      rule_obstruction rt (resolve_obstruction_fraction status_raw)]"

subsection \<open>Resolution of a field from alternative key-paths\<close>

text \<open>
  The key-paths of each field, in the order in which the source tries them.  A lookup
  along a key-path is \<open>g\<close>; on a single key it is \<^verbatim>\<open>dict.get\<close>.
\<close>

definition lookups :: "pydict \<Rightarrow> string list list \<Rightarrow> pyval list" where
  "lookups raw paths = map (g (PDict raw)) paths"

definition dish_state_paths :: "string list list" where
  "dish_state_paths = [[''dish_state''], [''state''], [''status'', ''dish_state'']]"

definition boresight_paths :: "string list list" where
  "boresight_paths =
     [[''boresight_error_deg''], [''alignment_stats'', ''boresight_error_deg''],
      [''pointing_stats'', ''boresight_error_deg''], [''pointing'', ''boresight_error_deg'']]"

definition currently_obstructed_paths :: "string list list" where
  "currently_obstructed_paths =
     [[''currently_obstructed''], [''obstruction_stats'', ''currently_obstructed'']]"

definition obstruction_fraction_paths :: "string list list" where
  "obstruction_fraction_paths =
     [[''obstruction_fraction''], [''obstruction_stats'', ''fraction_obstructed''],
      [''obstruction_stats'', ''obstruction_fraction'']]"

definition summary_paths :: "(string \<times> string list list) list" where
  "summary_paths =
     [(''dish_state'', dish_state_paths),
      (''pop_ping_latency_ms'', [[''pop_ping_latency_ms''], [''ping_latency_ms'']]),
      (''pop_ping_drop_rate'', [[''pop_ping_drop_rate'']]),
      (''downlink_throughput_bps'', [[''downlink_throughput_bps''], [''download_throughput_bps'']]),
      (''uplink_throughput_bps'', [[''uplink_throughput_bps''], [''upload_throughput_bps'']]),
      (''obstruction_fraction'', obstruction_fraction_paths),
      (''seconds_since_last_1s_outage'', [[''seconds_since_last_1s_outage'']]),
      (''seconds_since_last_2s_outage'', [[''seconds_since_last_2s_outage'']]),
      (''seconds_since_last_5s_outage'', [[''seconds_since_last_5s_outage'']])]"

text \<open>
  The resolution as the specification words it: the value at the first key-path that
  resolves to a present value, that is, to a value other than \<^verbatim>\<open>None\<close>.
\<close>

definition first_present :: "pyval list \<Rightarrow> pyval" where
  "first_present alts = (case filter (\<lambda>v. v \<noteq> PNone) alts of [] \<Rightarrow> PNone | v # vs \<Rightarrow> v)"

text \<open>
  The resolution as a chain of \<^verbatim>\<open>or\<close> computes it: the first truthy value, and the
  last value when none is truthy.
\<close>

definition first_truthy_or_last :: "pyval list \<Rightarrow> pyval" where
  "first_truthy_or_last alts =
     (case find truthy alts of Some v \<Rightarrow> v | None \<Rightarrow> if alts = [] then PNone else last alts)"

subsection \<open>Notions for the log store\<close>

text \<open>Appending a list of samples one after the other; the first exception ends it.\<close>

fun append_all :: "pyval list \<Rightarrow> storage \<Rightarrow> io_error + storage" where
  "append_all [] s = Inr s"
| "append_all (e # es) s =
     (case append_sample e s of Inl x \<Rightarrow> Inl x | Inr s' \<Rightarrow> append_all es s')"

text \<open>The last \<open>n\<close> elements of a list: the slice \<^verbatim>\<open>xs[-n:]\<close> for a positive \<open>n\<close>.\<close>

definition keep_last :: "nat \<Rightarrow> 'a list \<Rightarrow> 'a list" where
  "keep_last n xs = drop (length xs - n) xs"

text \<open>
  The log starts empty: the file is missing, unreadable, or does not parse as a JSON array.
\<close>

definition starts_empty :: "storage \<Rightarrow> bool" where
  "starts_empty s =
     (case log_file s of
        Missing \<Rightarrow> True
      | Unreadable \<Rightarrow> True
      | NotJson \<Rightarrow> True
      | Json v \<Rightarrow> (case v of PList xs \<Rightarrow> False | _ \<Rightarrow> True))"

text \<open>
  The states of the file that a reader can find while an append runs, and the property
  that a write through a temporary file and a replace would give them: each is the file
  as it was before the append or the file as it is after.
\<close>

definition observable_states :: "pyval \<Rightarrow> storage \<Rightarrow> storage list" where
  "observable_states e s = (case append_trace e s of Inl x \<Rightarrow> [] | Inr states \<Rightarrow> states)"

definition atomic_write :: "storage \<Rightarrow> storage list \<Rightarrow> bool" where
  "atomic_write s states =
     list_all (\<lambda>t. log_file t = log_file s \<or> log_file t = log_file (last states)) states"

subsection \<open>Inputs for the examples\<close>

text \<open>
  A runtime on which the examples are evaluated: it upper-cases the ASCII letters, converts
  an integer to the float of the same value, parses no string, and prints a placeholder for
  a value or a float.  The theorems do not depend on it.
\<close>

definition ascii_upper :: "string \<Rightarrow> string" where
  "ascii_upper s =
     map (\<lambda>c. let n = (of_char c :: nat) in if 97 \<le> n \<and> n \<le> 122 then char_of (n - 32) else c) s"

definition example_runtime :: runtime where
  "example_runtime =
     \<lparr>str_other = (\<lambda>v. ''<value>''),
      upper = ascii_upper,
      float_of_str = (\<lambda>s. None),
      float_of_int = (\<lambda>n. Some (Fin (of_int n))),
      format_f = (\<lambda>d v. ''<float>''),
      float_mul = (\<lambda>a b. case (a, b) of (Fin x, Fin y) \<Rightarrow> Fin (x * y) | _ \<Rightarrow> NaN),
      round_nd = (\<lambda>v d. v)\<rparr>"

definition searching_payload :: pydict where
  "searching_payload = [(''dish_state'', PStr ''searching'')]"

definition obstructed_payload :: pydict where
  "obstructed_payload =
     [(''state'', PStr ''connected''),
      (''obstruction_stats'', PDict [(''currently_obstructed'', PBool True),
                                      (''fraction_obstructed'', PFloat (Fin (1 / 4)))])]"

definition boundary_payload :: "rat \<Rightarrow> rat \<Rightarrow> pydict" where
  "boundary_payload b x =
     [(''dish_state'', PStr ''ONLINE''),
      (''boresight_error_deg'', PFloat (Fin b)),
      (''obstruction_fraction'', PFloat (Fin x))]"

definition clear_sky_payload :: pydict where
  "clear_sky_payload = [(''obstruction_fraction'', PFloat (Fin 0))]"

definition zero_then_half_payload :: pydict where
  "zero_then_half_payload =
     [(''obstruction_fraction'', PInt 0),
      (''obstruction_stats'', PDict [(''fraction_obstructed'', PFloat (Fin (1 / 2)))])]"

definition sample :: "nat \<Rightarrow> pyval" where
  "sample i = make_entry example_runtime ''2026-01-01T00:00:00.000001Z'' (Fin (of_nat i / 2020))"

definition fresh_storage :: storage where
  "fresh_storage = \<lparr>log_file = Missing, log_writable = True\<rparr>"

definition garbled_storage :: storage where
  "garbled_storage = \<lparr>log_file = Json (PDict [(''version'', PInt 1)]), log_writable = True\<rparr>"

definition locked_storage :: storage where
  "locked_storage = \<lparr>log_file = Unreadable, log_writable = False\<rparr>"

definition one_sample_storage :: storage where
  "one_sample_storage = \<lparr>log_file = Json (PList [sample 0]), log_writable = True\<rparr>"

definition tick_at :: "rat \<Rightarrow> nat \<Rightarrow> fetch \<Rightarrow> reset_outcome \<Rightarrow> tick" where
  "tick_at now utc f out =
     \<lparr>tk_now = now, tk_utc = utc, tk_ka_fetch = f, tk_ka_status_ts = int utc,
      tk_ka_ts = int utc, tk_reset = out, tk_reset_ts = int utc, tk_log_fetch = f,
      tk_log_ts = int utc, tk_log_timestamp = ''2026-01-01T00:00:00.000001Z''\<rparr>"

definition unreachable :: fetch where
  "unreachable = FetchRaised ''failed to connect to all addresses''"

definition midnight_ticks :: "tick list" where
  "midnight_ticks =
     [tick_at 1767225600 1767225600 unreachable (ResetRaised ''unavailable''),
      tick_at 1767225601 1767225601 unreachable ResetDone,
      tick_at 1767225659 1767225659 unreachable ResetDone]"

definition idle_world :: world where
  "idle_world = bg_init 1767225590 1767225590 fresh_storage"

definition failing_env :: request_env where
  "failing_env = \<lparr>rq_ts = 1767225600, rq_fetch = unreachable, rq_status_ts = 1767225600,
                   rq_reset = ResetNotFound\<rparr>"

section \<open>Resolution of the fields\<close>

lemma g_single: "g (PDict raw) [k] = get raw k"
  by (simp add: get_def get_default_def split: option.splits)

lemma or_chain1: "first_truthy_or_last [a] = a"
  by (simp add: first_truthy_or_last_def)

lemma or_chain2: "first_truthy_or_last [a, b] = py_or a b"
  by (simp add: first_truthy_or_last_def py_or_def)

lemma or_chain3: "first_truthy_or_last [a, b, c] = py_or a (py_or b c)"
  by (simp add: first_truthy_or_last_def py_or_def)

lemma or_chain4: "first_truthy_or_last [a, b, c, d] = py_or a (py_or b (py_or c d))"
  by (simp add: first_truthy_or_last_def py_or_def)

lemma classifier_resolution:
  "resolve_dish_state raw = first_truthy_or_last (lookups raw dish_state_paths)"
  "resolve_boresight raw = first_truthy_or_last (lookups raw boresight_paths)"
  "resolve_currently_obstructed raw = first_truthy_or_last (lookups raw currently_obstructed_paths)"
  "resolve_obstruction_fraction raw = first_truthy_or_last (lookups raw obstruction_fraction_paths)"
  by (simp_all only: lookups_def dish_state_paths_def boresight_paths_def
      currently_obstructed_paths_def obstruction_fraction_paths_def list.map
      or_chain2 or_chain3 or_chain4 g_single resolve_dish_state_def resolve_boresight_def
      resolve_currently_obstructed_def resolve_obstruction_fraction_def)

lemma first_truthy_or_last_char:
  "i < length alts \<Longrightarrow> truthy (alts ! i) \<Longrightarrow> (\<forall>j < i. \<not> truthy (alts ! j))
     \<Longrightarrow> first_truthy_or_last alts = alts ! i"
  "alts \<noteq> [] \<Longrightarrow> (\<forall>v \<in> set alts. \<not> truthy v) \<Longrightarrow> first_truthy_or_last alts = last alts"
proof -
  show "i < length alts \<Longrightarrow> truthy (alts ! i) \<Longrightarrow> (\<forall>j < i. \<not> truthy (alts ! j))
     \<Longrightarrow> first_truthy_or_last alts = alts ! i"
  proof (induction alts arbitrary: i)
    case Nil then show ?case by simp
  next
    case (Cons a as)
    show ?case
    proof (cases i)
      case 0 with Cons.prems show ?thesis by (simp add: first_truthy_or_last_def)
    next
      case (Suc k)
      with Cons.prems have a: "\<not> truthy a" by auto
      from Suc Cons.prems have "first_truthy_or_last as = as ! k"
        by (intro Cons.IH) auto
      with a Suc Cons.prems show ?thesis
        by (auto simp: first_truthy_or_last_def split: option.splits)
    qed
  qed
  show "alts \<noteq> [] \<Longrightarrow> (\<forall>v \<in> set alts. \<not> truthy v) \<Longrightarrow> first_truthy_or_last alts = last alts"
  proof -
    assume "alts \<noteq> []" and "\<forall>v \<in> set alts. \<not> truthy v"
    moreover from this have "find truthy alts = None" by (simp add: find_None_iff)
    ultimately show ?thesis by (simp add: first_truthy_or_last_def)
  qed
qed

lemma summary_resolution:
  "summary_of raw = map (\<lambda>(field, paths). (field, first_truthy_or_last (lookups raw paths))) summary_paths"
  by (simp only: summary_paths_def summary_of_def lookups_def dish_state_paths_def
      obstruction_fraction_paths_def list.map prod.case or_chain1 or_chain2 or_chain3 g_single)

text \<open>
  Claim C1, as the specification states it, fails: with an obstruction fraction of 0.0 (or
  0) at the first key-path, the first present value is that zero, but the classifier and
  the summary resolve the field to \<^verbatim>\<open>None\<close>, or to the value of a later key-path.
\<close>

theorem resolution_counterexample:
  "resolve_obstruction_fraction clear_sky_payload \<noteq>
     first_present (lookups clear_sky_payload obstruction_fraction_paths)
   \<and> resolve_obstruction_fraction zero_then_half_payload \<noteq>
     first_present (lookups zero_then_half_payload obstruction_fraction_paths)
   \<and> first_present (lookups clear_sky_payload obstruction_fraction_paths) = PFloat (Fin 0)
   \<and> resolve_obstruction_fraction clear_sky_payload = PNone
   \<and> map_of (summary_of clear_sky_payload) ''obstruction_fraction'' = Some PNone
   \<and> first_present (lookups zero_then_half_payload obstruction_fraction_paths) = PInt 0
   \<and> resolve_obstruction_fraction zero_then_half_payload = PFloat (Fin (1 / 2))
   \<and> map_of (summary_of zero_then_half_payload) ''obstruction_fraction'' = Some (PFloat (Fin (1 / 2)))"
  by code_simp

text \<open>
  Claim C1, amended.  Each raw field of the classifier and each field of the summary is
  the first truthy value among the lookups along its key-paths, in their order, and the
  value of the last lookup when none is truthy.  A value that is present but falsy is
  passed over like an absent one, and the later key-paths are then consulted.
\<close>

theorem resolution_first_truthy:
  "resolve_dish_state raw = first_truthy_or_last (lookups raw dish_state_paths)
   \<and> resolve_boresight raw = first_truthy_or_last (lookups raw boresight_paths)
   \<and> resolve_currently_obstructed raw = first_truthy_or_last (lookups raw currently_obstructed_paths)
   \<and> resolve_obstruction_fraction raw = first_truthy_or_last (lookups raw obstruction_fraction_paths)
   \<and> summary_of raw =
       map (\<lambda>(field, paths). (field, first_truthy_or_last (lookups raw paths))) summary_paths
   \<and> (\<forall>alts i. i < length alts \<and> truthy (alts ! i) \<and> (\<forall>j < i. \<not> truthy (alts ! j))
         \<longrightarrow> first_truthy_or_last alts = alts ! i)
   \<and> (\<forall>alts. alts \<noteq> [] \<and> (\<forall>v \<in> set alts. \<not> truthy v)
         \<longrightarrow> first_truthy_or_last alts = last alts)"
  using classifier_resolution [of raw] summary_resolution [of raw] first_truthy_or_last_char
  by blast

theorem resolution_first_truthy_witness:
  "resolve_obstruction_fraction zero_then_half_payload =
     first_truthy_or_last (lookups zero_then_half_payload obstruction_fraction_paths)
   \<and> first_truthy_or_last [PInt 0, PFloat (Fin (1 / 2)), PNone] = PFloat (Fin (1 / 2))
   \<and> first_truthy_or_last [PFloat (Fin 0), PNone, PNone] = PNone"
proof -
  note t = resolution_first_truthy [of zero_then_half_payload]
  have a: "(1::nat) < length [PInt 0, PFloat (Fin (1 / 2)), PNone]
        \<and> truthy ([PInt 0, PFloat (Fin (1 / 2)), PNone] ! 1)
        \<and> (\<forall>j < 1. \<not> truthy ([PInt 0, PFloat (Fin (1 / 2)), PNone] ! j))" by simp
  have b: "[PFloat (Fin 0), PNone, PNone] \<noteq> []
        \<and> (\<forall>v \<in> set [PFloat (Fin 0), PNone, PNone]. \<not> truthy v)" by simp
  from t a have "first_truthy_or_last [PInt 0, PFloat (Fin (1 / 2)), PNone]
      = [PInt 0, PFloat (Fin (1 / 2)), PNone] ! 1" by blast
  moreover from t b have "first_truthy_or_last [PFloat (Fin 0), PNone, PNone]
      = last [PFloat (Fin 0), PNone, PNone]" by blast
  moreover from t have "resolve_obstruction_fraction zero_then_half_payload =
     first_truthy_or_last (lookups zero_then_half_payload obstruction_fraction_paths)" by blast
  ultimately show ?thesis by simp
qed

section \<open>Properties of the classifier\<close>

subsection \<open>Later rules never improve the verdict\<close>

lemma rule_boresight_keeps: "cs_verdict st = NOT_OK \<Longrightarrow> cs_verdict (rule_boresight rt b st) = NOT_OK"
  by (simp add: rule_boresight_def split: option.splits)

lemma rule_obstructed_keeps: "cs_verdict st = NOT_OK \<Longrightarrow> cs_verdict (rule_obstructed c st) = NOT_OK"
  by (simp add: rule_obstructed_def)

lemma rule_obstruction_keeps: "cs_verdict st = NOT_OK \<Longrightarrow> cs_verdict (rule_obstruction rt x st) = NOT_OK"
  by (simp add: rule_obstruction_def split: option.splits)

text \<open>
  Claim C2.  When the verdict is \<open>NOT_OK\<close> after any of the rules 1 to 4, the verdict that
  \<open>check_alignment\<close> returns is \<open>NOT_OK\<close>, and \<open>aligned\<close> is false: no later rule and
  not the final mapping restores \<open>ALIGNED\<close> or \<open>UNKNOWN\<close>.
\<close>

theorem verdict_monotone:
  assumes "cs_verdict (after_rule1 rt raw) = NOT_OK \<or> cs_verdict (after_rule2 rt raw) = NOT_OK
         \<or> cs_verdict (after_rule3 rt raw) = NOT_OK \<or> cs_verdict (after_rule4 rt raw) = NOT_OK"
  shows "verdict_of (check_alignment rt raw) = NOT_OK
         \<and> aligned (check_alignment rt raw) = False"
proof -
  have 12: "cs_verdict (after_rule1 rt raw) = NOT_OK \<Longrightarrow> cs_verdict (after_rule2 rt raw) = NOT_OK"
    unfolding after_rule2_def by (rule rule_boresight_keeps)
  have 23: "cs_verdict (after_rule2 rt raw) = NOT_OK \<Longrightarrow> cs_verdict (after_rule3 rt raw) = NOT_OK"
    unfolding after_rule3_def by (rule rule_obstructed_keeps)
  have 34: "cs_verdict (after_rule3 rt raw) = NOT_OK \<Longrightarrow> cs_verdict (after_rule4 rt raw) = NOT_OK"
    unfolding after_rule4_def by (rule rule_obstruction_keeps)
  from assms 12 23 34 have 4: "cs_verdict (after_rule4 rt raw) = NOT_OK" by blast
  then show ?thesis by (simp add: check_alignment_def Let_def)
qed

lemma after_rule1_searching: "cs_verdict (after_rule1 example_runtime searching_payload) = NOT_OK"
  by code_simp

theorem verdict_monotone_witness:
  "cs_verdict (after_rule1 example_runtime searching_payload) = NOT_OK
   \<and> verdict_of (check_alignment example_runtime searching_payload) = NOT_OK"
  using verdict_monotone [of example_runtime searching_payload] after_rule1_searching by simp


subsection \<open>The invariant of the returned verdict\<close>

lemma empty_not_bad_state: "[] \<notin> bad_states"
  by (simp add: bad_states_def)

lemma rule_state_effect:
  "cs_reasons (rule_state s st) = cs_reasons st @ rule_reasons (rule_state s)"
  "(cs_verdict (rule_state s st) = ALIGNED) = (\<not> rule_fails (rule_state s))"
  "length (rule_reasons (rule_state s)) = (if rule_fails (rule_state s) then 1 else 0)"
  by (simp_all add: rule_state_def rule_reasons_def rule_fails_def probe_def empty_not_bad_state)

lemma rule_boresight_effect:
  "cs_reasons (rule_boresight rt b st) = cs_reasons st @ rule_reasons (rule_boresight rt b)"
  "cs_verdict (rule_boresight rt b st) = (if rule_fails (rule_boresight rt b) then NOT_OK else cs_verdict st)"
  "length (rule_reasons (rule_boresight rt b)) = (if rule_fails (rule_boresight rt b) then 1 else 0)"
  by (simp_all add: rule_boresight_def rule_reasons_def rule_fails_def probe_def split: option.splits)

lemma rule_obstructed_effect:
  "cs_reasons (rule_obstructed c st) = cs_reasons st @ rule_reasons (rule_obstructed c)"
  "cs_verdict (rule_obstructed c st) = (if rule_fails (rule_obstructed c) then NOT_OK else cs_verdict st)"
  "length (rule_reasons (rule_obstructed c)) = (if rule_fails (rule_obstructed c) then 1 else 0)"
  by (simp_all add: rule_obstructed_def rule_reasons_def rule_fails_def probe_def)

lemma rule_obstruction_effect:
  "cs_reasons (rule_obstruction rt x st) = cs_reasons st @ rule_reasons (rule_obstruction rt x)"
  "cs_verdict (rule_obstruction rt x st) = (if rule_fails (rule_obstruction rt x) then NOT_OK else cs_verdict st)"
  "length (rule_reasons (rule_obstruction rt x)) = (if rule_fails (rule_obstruction rt x) then 1 else 0)"
  by (simp_all add: rule_obstruction_def rule_reasons_def rule_fails_def probe_def split: option.splits)

lemma reasons_after_rule4:
  "cs_reasons (after_rule4 rt raw) = concat (map rule_reasons (rules rt raw))"
  by (simp add: after_rule4_def after_rule3_def after_rule2_def after_rule1_def rules_def
      rule_obstruction_effect(1) rule_obstructed_effect(1) rule_boresight_effect(1)
      rule_state_effect(1) init_state_def)

lemma verdict_after_rule4:
  "(cs_verdict (after_rule4 rt raw) = ALIGNED) = (\<forall>r \<in> set (rules rt raw). \<not> rule_fails r)"
  by (simp add: after_rule4_def after_rule3_def after_rule2_def after_rule1_def rules_def
      rule_obstruction_effect(2) rule_obstructed_effect(2) rule_boresight_effect(2)
      rule_state_effect(2))

lemma rules_one_reason:
  assumes "r \<in> set (rules rt raw)"
  shows "length (rule_reasons r) = (if rule_fails r then 1 else 0)"
proof -
  from assms consider
      "r = rule_state (dish_state_str rt (resolve_dish_state raw))"
    | "r = rule_boresight rt (resolve_boresight raw)"
    | "r = rule_obstructed (resolve_currently_obstructed raw)"
    | "r = rule_obstruction rt (resolve_obstruction_fraction raw)"
    by (auto simp: rules_def)
  then show ?thesis
    by cases (simp_all only: rule_state_effect(3) rule_boresight_effect(3)
        rule_obstructed_effect(3) rule_obstruction_effect(3))
qed

text \<open>
  Claim C3.  In the result of \<open>check_alignment\<close>, \<open>aligned\<close> holds exactly when the verdict
  is \<open>ALIGNED\<close>; the reasons are not empty whenever the verdict is not \<open>ALIGNED\<close>; the
  verdict is not \<open>ALIGNED\<close> exactly when some rule fails; and the reasons are, in the order
  in which the rules are evaluated, one entry for each rule that fails and none for a rule
  that does not.
\<close>

theorem verdict_invariant:
  fixes rt raw
  defines "a \<equiv> check_alignment rt raw"
  shows "(aligned a \<longleftrightarrow> verdict_of a = ALIGNED)
     \<and> (verdict_of a \<noteq> ALIGNED \<longrightarrow> reasons a \<noteq> [])
     \<and> (verdict_of a \<noteq> ALIGNED \<longleftrightarrow> (\<exists>r \<in> set (rules rt raw). rule_fails r))
     \<and> reasons a = concat (map rule_reasons (rules rt raw))
     \<and> (\<forall>r \<in> set (rules rt raw). length (rule_reasons r) = (if rule_fails r then 1 else 0))"
proof -
  have al: "aligned a \<longleftrightarrow> verdict_of a = ALIGNED"
    by (simp add: a_def check_alignment_def Let_def)
  have v: "verdict_of a \<noteq> ALIGNED \<longleftrightarrow> (\<exists>r \<in> set (rules rt raw). rule_fails r)"
    using verdict_after_rule4 [of rt raw] by (simp add: a_def check_alignment_def Let_def)
  have rs: "reasons a = concat (map rule_reasons (rules rt raw))"
    by (simp add: a_def check_alignment_def Let_def reasons_after_rule4)
  have one: "\<forall>r \<in> set (rules rt raw). length (rule_reasons r) = (if rule_fails r then 1 else 0)"
    using rules_one_reason by blast
  have ne: "verdict_of a \<noteq> ALIGNED \<longrightarrow> reasons a \<noteq> []"
  proof
    assume "verdict_of a \<noteq> ALIGNED"
    with v obtain r where r: "r \<in> set (rules rt raw)" "rule_fails r" by blast
    with one have "rule_reasons r \<noteq> []" by fastforce
    with r(1) show "reasons a \<noteq> []" unfolding rs by auto
  qed
  from al ne v rs one show ?thesis by blast
qed


lemma obstructed_payload_verdict:
  "verdict_of (check_alignment example_runtime obstructed_payload) = NOT_OK"
  by code_simp

theorem verdict_invariant_witness:
  "verdict_of (check_alignment example_runtime obstructed_payload) \<noteq> ALIGNED
   \<and> \<not> aligned (check_alignment example_runtime obstructed_payload)
   \<and> reasons (check_alignment example_runtime obstructed_payload) \<noteq> []
   \<and> (\<exists>r \<in> set (rules example_runtime obstructed_payload). rule_fails r)"
proof -
  note inv = verdict_invariant [of example_runtime obstructed_payload]
  have v: "verdict_of (check_alignment example_runtime obstructed_payload) \<noteq> ALIGNED"
    using obstructed_payload_verdict by simp
  from inv v show ?thesis by blast
qed

lemma obstructed_payload_reasons:
  "reasons (check_alignment example_runtime obstructed_payload) =
     [''currently_obstructed=true'', ''obstruction=HIGH (<float>)'']"
  by code_simp

subsection \<open>The thresholds are strict\<close>

text \<open>
  The two obstruction thresholds are the doubles nearest to 0.02 and 0.10: a 53-bit
  numerator over a power of two, within half a unit in the last place of the decimal.
\<close>

lemma double_nearest:
  "\<bar>5764607523034235 / 2 ^ 58 - 1 / 50 :: rat\<bar> \<le> 1 / 2 ^ 59"
  "\<bar>7205759403792794 / 2 ^ 56 - 1 / 10 :: rat\<bar> \<le> 1 / 2 ^ 57"
  "(2::nat) ^ 52 \<le> 5764607523034235 \<and> (5764607523034235::nat) < 2 ^ 53"
  "(2::nat) ^ 52 \<le> 7205759403792794 \<and> (7205759403792794::nat) < 2 ^ 53"
  "OBSTRUCTION_MED = Fin (5764607523034235 / 2 ^ 58)"
  "OBSTRUCTION_HIGH = Fin (7205759403792794 / 2 ^ 56)"
  by (simp_all add: OBSTRUCTION_MED_def OBSTRUCTION_HIGH_def)

lemma rule_boresight_threshold:
  assumes "boresight_value rt b = Some (Fin x)"
  shows "x \<le> 5 / 2 \<Longrightarrow> rule_boresight rt b st = st"
    and "5 / 2 < x \<Longrightarrow> rule_boresight rt b st =
           st\<lparr>cs_verdict := NOT_OK,
              cs_reasons := cs_reasons st @
                [''boresight>2.5deg ('' @ format_f rt 2 (Fin x) @ degree_sign @ '')'']\<rparr>"
  using assms by (simp_all add: rule_boresight_def BORESIGHT_MAX_def)

lemma rule_obstruction_threshold:
  assumes "obstruction_value rt v = Some (Fin x)"
  shows "x \<le> 5764607523034235 / 288230376151711744 \<Longrightarrow> rule_obstruction rt v st = st"
    and "5764607523034235 / 288230376151711744 < x \<Longrightarrow> x \<le> 3602879701896397 / 36028797018963968
         \<Longrightarrow> rule_obstruction rt v st =
           st\<lparr>cs_verdict := NOT_OK,
              cs_reasons := cs_reasons st @ [''obstruction=MED ('' @ format_f rt 3 (Fin x) @ '')'']\<rparr>"
    and "3602879701896397 / 36028797018963968 < x \<Longrightarrow> rule_obstruction rt v st =
           st\<lparr>cs_verdict := NOT_OK,
              cs_reasons := cs_reasons st @ [''obstruction=HIGH ('' @ format_f rt 3 (Fin x) @ '')'']\<rparr>"
  using assms by (simp_all add: rule_obstruction_def OBSTRUCTION_HIGH_def OBSTRUCTION_MED_def)

text \<open>
  Claim C4.  When the resolved boresight error converts to the finite float \<open>b\<close>, rule 2
  leaves verdict and reasons as they are for \<open>b \<le> 2.5\<close> (so for exactly 2.5) and sets
  \<open>NOT_OK\<close> with the boresight reason for every \<open>b > 2.5\<close> (so for 2.5001).  When the
  resolved obstruction fraction converts to the finite float \<open>x\<close>, rule 4 adds nothing for
  \<open>x\<close> up to the double 0.02, adds the MED reason for \<open>x\<close> strictly above the double 0.02
  and up to the double 0.10 (so exactly 0.10 is MED, not HIGH), and adds the HIGH reason
  for \<open>x\<close> strictly above the double 0.10.
\<close>

theorem thresholds_strict:
  "(\<forall>b. boresight_value rt (resolve_boresight raw) = Some (Fin b) \<longrightarrow>
        (b \<le> 5 / 2 \<longrightarrow> after_rule2 rt raw = after_rule1 rt raw) \<and>
        (5 / 2 < b \<longrightarrow>
           cs_verdict (after_rule2 rt raw) = NOT_OK \<and>
           cs_reasons (after_rule2 rt raw) = cs_reasons (after_rule1 rt raw) @
             [''boresight>2.5deg ('' @ format_f rt 2 (Fin b) @ degree_sign @ '')'']))
   \<and> (\<forall>x. obstruction_value rt (resolve_obstruction_fraction raw) = Some (Fin x) \<longrightarrow>
        (x \<le> 5764607523034235 / 288230376151711744 \<longrightarrow>
           after_rule4 rt raw = after_rule3 rt raw) \<and>
        (5764607523034235 / 288230376151711744 < x \<and> x \<le> 3602879701896397 / 36028797018963968 \<longrightarrow>
           cs_verdict (after_rule4 rt raw) = NOT_OK \<and>
           cs_reasons (after_rule4 rt raw) = cs_reasons (after_rule3 rt raw) @
             [''obstruction=MED ('' @ format_f rt 3 (Fin x) @ '')'']) \<and>
        (3602879701896397 / 36028797018963968 < x \<longrightarrow>
           cs_verdict (after_rule4 rt raw) = NOT_OK \<and>
           cs_reasons (after_rule4 rt raw) = cs_reasons (after_rule3 rt raw) @
             [''obstruction=HIGH ('' @ format_f rt 3 (Fin x) @ '')'']))"
proof (intro conjI allI impI)
  fix b assume b: "boresight_value rt (resolve_boresight raw) = Some (Fin b)"
  { assume "b \<le> 5 / 2"
    then show "after_rule2 rt raw = after_rule1 rt raw"
      unfolding after_rule2_def by (rule rule_boresight_threshold(1) [OF b]) }
  { assume "5 / 2 < b"
    then have e: "after_rule2 rt raw = (after_rule1 rt raw)\<lparr>cs_verdict := NOT_OK,
              cs_reasons := cs_reasons (after_rule1 rt raw) @
                [''boresight>2.5deg ('' @ format_f rt 2 (Fin b) @ degree_sign @ '')'']\<rparr>"
      unfolding after_rule2_def by (rule rule_boresight_threshold(2) [OF b])
    show "cs_verdict (after_rule2 rt raw) = NOT_OK" by (simp add: e)
    show "cs_reasons (after_rule2 rt raw) = cs_reasons (after_rule1 rt raw) @
             [''boresight>2.5deg ('' @ format_f rt 2 (Fin b) @ degree_sign @ '')'']"
      by (simp add: e) }
next
  fix x assume x: "obstruction_value rt (resolve_obstruction_fraction raw) = Some (Fin x)"
  { assume "x \<le> 5764607523034235 / 288230376151711744"
    then show "after_rule4 rt raw = after_rule3 rt raw"
      unfolding after_rule4_def by (rule rule_obstruction_threshold(1) [OF x]) }
  { assume "5764607523034235 / 288230376151711744 < x \<and> x \<le> 3602879701896397 / 36028797018963968"
    then have e: "after_rule4 rt raw = (after_rule3 rt raw)\<lparr>cs_verdict := NOT_OK,
              cs_reasons := cs_reasons (after_rule3 rt raw) @
                [''obstruction=MED ('' @ format_f rt 3 (Fin x) @ '')'']\<rparr>"
      unfolding after_rule4_def using rule_obstruction_threshold(2) [OF x] by blast
    show "cs_verdict (after_rule4 rt raw) = NOT_OK" by (simp add: e)
    show "cs_reasons (after_rule4 rt raw) = cs_reasons (after_rule3 rt raw) @
             [''obstruction=MED ('' @ format_f rt 3 (Fin x) @ '')'']"
      by (simp add: e) }
  { assume "3602879701896397 / 36028797018963968 < x"
    then have e: "after_rule4 rt raw = (after_rule3 rt raw)\<lparr>cs_verdict := NOT_OK,
              cs_reasons := cs_reasons (after_rule3 rt raw) @
                [''obstruction=HIGH ('' @ format_f rt 3 (Fin x) @ '')'']\<rparr>"
      unfolding after_rule4_def by (rule rule_obstruction_threshold(3) [OF x])
    show "cs_verdict (after_rule4 rt raw) = NOT_OK" by (simp add: e)
    show "cs_reasons (after_rule4 rt raw) = cs_reasons (after_rule3 rt raw) @
             [''obstruction=HIGH ('' @ format_f rt 3 (Fin x) @ '')'']"
      by (simp add: e) }
qed

lemma boundary_examples:
  "verdict_of (check_alignment example_runtime (boundary_payload (5 / 2) (5764607523034235 / 288230376151711744))) = ALIGNED"
  "reasons (check_alignment example_runtime (boundary_payload (5 / 2) (5764607523034235 / 288230376151711744))) = []"
  "reasons (check_alignment example_runtime (boundary_payload (5629724714194489 / 2251799813685248) (5764607523034235 / 288230376151711744)))
     = [''boresight>2.5deg ('' @ ''<float>'' @ degree_sign @ '')'']"
  "reasons (check_alignment example_runtime (boundary_payload (5 / 2) (2896715280324703 / 144115188075855872)))
     = [''obstruction=MED (<float>)'']"
  "reasons (check_alignment example_runtime (boundary_payload (5 / 2) (3602879701896397 / 36028797018963968)))
     = [''obstruction=MED (<float>)'']"
  "reasons (check_alignment example_runtime (boundary_payload (5 / 2) (3606482581598293 / 36028797018963968)))
     = [''obstruction=HIGH (<float>)'']"
  by code_simp+

lemma boundary_values:
  "b \<noteq> 0 \<Longrightarrow> boresight_value example_runtime (resolve_boresight (boundary_payload b x)) = Some (Fin b)"
  "x \<noteq> 0 \<Longrightarrow> obstruction_value example_runtime (resolve_obstruction_fraction (boundary_payload b x)) = Some (Fin x)"
  by (simp_all add: boundary_payload_def resolve_boresight_def resolve_obstruction_fraction_def
      boresight_value_def obstruction_value_def get_def get_default_def py_or_def py_float_def)

theorem thresholds_strict_witness:
  "after_rule2 example_runtime (boundary_payload (5 / 2) (3602879701896397 / 36028797018963968)) =
     after_rule1 example_runtime (boundary_payload (5 / 2) (3602879701896397 / 36028797018963968))
   \<and> cs_reasons (after_rule4 example_runtime (boundary_payload (5 / 2) (3602879701896397 / 36028797018963968))) =
     cs_reasons (after_rule3 example_runtime (boundary_payload (5 / 2) (3602879701896397 / 36028797018963968))) @
       [''obstruction=MED ('' @ format_f example_runtime 3 (Fin (3602879701896397 / 36028797018963968)) @ '')'']"
proof -
  let ?p = "boundary_payload (5 / 2) (3602879701896397 / 36028797018963968)"
  note t = thresholds_strict [of example_runtime ?p]
  have b: "boresight_value example_runtime (resolve_boresight ?p) = Some (Fin (5 / 2))"
    by (rule boundary_values(1)) simp
  have x: "obstruction_value example_runtime (resolve_obstruction_fraction ?p)
      = Some (Fin (3602879701896397 / 36028797018963968))"
    by (rule boundary_values(2)) simp
  from t b have "(5 / 2 :: rat) \<le> 5 / 2 \<longrightarrow> after_rule2 example_runtime ?p = after_rule1 example_runtime ?p"
    by blast
  moreover from t x have
    "(5764607523034235 / 288230376151711744 :: rat) < 3602879701896397 / 36028797018963968
      \<and> (3602879701896397 / 36028797018963968 :: rat) \<le> 3602879701896397 / 36028797018963968
     \<longrightarrow> cs_reasons (after_rule4 example_runtime ?p) = cs_reasons (after_rule3 example_runtime ?p) @
       [''obstruction=MED ('' @ format_f example_runtime 3 (Fin (3602879701896397 / 36028797018963968)) @ '')'']"
    by blast
  ultimately show ?thesis by simp
qed

section \<open>Properties of the log store\<close>

subsection \<open>The bound on the log\<close>

lemma append_bounded_keep_last: "append_bounded data e = keep_last MAX_KEEP (data @ [e])"
  by (simp add: append_bounded_def keep_last_def Let_def)

lemma keep_last_length: "length (keep_last n xs) \<le> n"
  by (simp add: keep_last_def)

lemma keep_last_suffix: "suffix (keep_last n xs) xs"
  by (simp add: keep_last_def suffix_drop)

lemma keep_last_last: "0 < n \<Longrightarrow> xs \<noteq> [] \<Longrightarrow> last (keep_last n xs) = last xs"
  by (simp add: keep_last_def)

lemma keep_last_append: "keep_last n (keep_last n xs @ ys) = keep_last n (xs @ ys)"
  by (cases "length xs \<le> n") (simp_all add: keep_last_def add.commute)

lemma append_sample_writable:
  "log_writable s \<Longrightarrow>
     append_sample e s = Inr (s\<lparr>log_file := Json (PList (keep_last MAX_KEEP (load_log s @ [e])))\<rparr>)"
  by (simp add: append_sample_def append_trace_def write_log_def append_bounded_keep_last)

lemma load_log_written: "load_log (s\<lparr>log_file := Json (PList xs)\<rparr>) = xs"
  by (simp add: load_log_def)

lemma append_all_writable:
  "log_writable s \<Longrightarrow> es \<noteq> [] \<Longrightarrow>
     append_all es s = Inr (s\<lparr>log_file := Json (PList (keep_last MAX_KEEP (load_log s @ es)))\<rparr>)"
proof (induction es arbitrary: s)
  case Nil
  then show ?case by simp
next
  case (Cons e es)
  let ?s' = "s\<lparr>log_file := Json (PList (keep_last MAX_KEEP (load_log s @ [e])))\<rparr>"
  have step: "append_sample e s = Inr ?s'"
    using Cons.prems(1) by (rule append_sample_writable)
  show ?case
  proof (cases "es = []")
    case True
    with step show ?thesis by simp
  next
    case False
    have w: "log_writable ?s'" using Cons.prems(1) by simp
    have "append_all es ?s' =
        Inr (?s'\<lparr>log_file := Json (PList (keep_last MAX_KEEP (load_log ?s' @ es)))\<rparr>)"
      using w False by (rule Cons.IH)
    then show ?thesis
      using step by (simp add: load_log_written keep_last_append)
  qed
qed

text \<open>
  Claim C6.  From every state of the storage, an append that the file system lets write
  leaves a JSON array of at most 2016 entries, which is a suffix of the loaded log
  followed by the new sample, the new sample last; whenever an append returns, the log it
  leaves has at most 2016 entries.  Appending 2020 samples one after the other to an empty
  log leaves the last 2016 of them, that is, all but the first four, in their order.
\<close>

theorem log_bound:
  "(log_writable s \<longrightarrow>
      (\<exists>xs. append_sample e s = Inr (s\<lparr>log_file := Json (PList xs)\<rparr>)
         \<and> length xs \<le> 2016 \<and> last xs = e \<and> suffix xs (load_log s @ [e])))
   \<and> (log_writable s \<and> load_log s = [] \<and> length es = 2020 \<longrightarrow>
      append_all es s = Inr (s\<lparr>log_file := Json (PList (drop 4 es))\<rparr>)
      \<and> length (drop 4 es) = 2016)
   \<and> (\<forall>s'. append_sample e s = Inr s' \<longrightarrow> length (load_log s') \<le> 2016)"
proof (intro conjI impI allI)
  assume w: "log_writable s"
  let ?xs = "keep_last MAX_KEEP (load_log s @ [e])"
  have "append_sample e s = Inr (s\<lparr>log_file := Json (PList ?xs)\<rparr>)"
    using w by (rule append_sample_writable)
  moreover have "length ?xs \<le> 2016"
    using keep_last_length [of MAX_KEEP] by (simp add: MAX_KEEP_def)
  moreover have "last ?xs = e"
    by (simp add: keep_last_last MAX_KEEP_def)
  moreover have "suffix ?xs (load_log s @ [e])"
    by (rule keep_last_suffix)
  ultimately show "\<exists>xs. append_sample e s = Inr (s\<lparr>log_file := Json (PList xs)\<rparr>)
         \<and> length xs \<le> 2016 \<and> last xs = e \<and> suffix xs (load_log s @ [e])"
    by blast
next
  assume a: "log_writable s \<and> load_log s = [] \<and> length es = 2020"
  then have ne: "es \<noteq> []" by auto
  from a ne have "append_all es s =
      Inr (s\<lparr>log_file := Json (PList (keep_last MAX_KEEP (load_log s @ es)))\<rparr>)"
    by (intro append_all_writable) auto
  with a show "append_all es s = Inr (s\<lparr>log_file := Json (PList (drop 4 es))\<rparr>)"
    by (simp add: keep_last_def MAX_KEEP_def)
  from a show "length (drop 4 es) = 2016" by simp
next
  fix s' assume r: "append_sample e s = Inr s'"
  then have w: "log_writable s"
    by (auto simp: append_sample_def append_trace_def write_log_def split: if_splits)
  from append_sample_writable [OF w] r
  have "s' = s\<lparr>log_file := Json (PList (keep_last MAX_KEEP (load_log s @ [e])))\<rparr>" by simp
  then show "length (load_log s') \<le> 2016"
    using keep_last_length [of MAX_KEEP] by (simp add: load_log_written MAX_KEEP_def)
qed


theorem log_bound_witness:
  "append_all (map sample [0..<2020]) fresh_storage =
     Inr (fresh_storage\<lparr>log_file := Json (PList (drop 4 (map sample [0..<2020])))\<rparr>)
   \<and> length (drop 4 (map sample [0..<2020])) = 2016"
proof -
  have "log_writable fresh_storage \<and> load_log fresh_storage = []
        \<and> length (map sample [0..<2020]) = 2020"
    by (simp add: fresh_storage_def load_log_def)
  with log_bound [of fresh_storage "sample 0" "map sample [0..<2020]"] show ?thesis
    by blast
qed

subsection \<open>A log that cannot be loaded\<close>

lemma starts_empty_load: "starts_empty s \<Longrightarrow> load_log s = []"
  by (auto simp: starts_empty_def load_log_def split: file_state.splits pyval.splits)

text \<open>
  Claim C7, as stated, fails: the write is outside the \<^verbatim>\<open>try\<close>.  When the file can be
  opened neither for reading nor for writing, the load gives the empty log and the write
  then raises, so the append fails.
\<close>

theorem log_resilience_counterexample:
  "starts_empty locked_storage
   \<and> append_sample (sample 0) locked_storage = Inl OSError
   \<and> log_obstruction_fraction_5min example_runtime (Fetched (boundary_payload 1 (1 / 100))) 0
        ''2026-01-01T00:00:00.000001Z'' locked_storage = Inl OSError"
  by code_simp

text \<open>
  Claim C7, amended.  When the log file is missing, unreadable, or does not parse as a JSON
  array, the load does not fail and gives the empty log; and when the file can be opened
  for writing, the append succeeds and the persisted log is exactly the new sample.
\<close>

theorem log_resilience:
  assumes "starts_empty s"
  shows "load_log s = []
     \<and> (log_writable s \<longrightarrow> append_sample e s = Inr (s\<lparr>log_file := Json (PList [e])\<rparr>))"
proof -
  have l: "load_log s = []" using assms by (rule starts_empty_load)
  have "log_writable s \<longrightarrow> append_sample e s = Inr (s\<lparr>log_file := Json (PList [e])\<rparr>)"
    by (simp add: append_sample_writable l keep_last_def MAX_KEEP_def)
  with l show ?thesis by simp
qed

theorem log_resilience_witness:
  "load_log garbled_storage = []
   \<and> append_sample (sample 7) garbled_storage =
       Inr (garbled_storage\<lparr>log_file := Json (PList [sample 7])\<rparr>)"
proof -
  have "starts_empty garbled_storage" "log_writable garbled_storage"
    by (simp_all add: starts_empty_def garbled_storage_def)
  with log_resilience [of garbled_storage "sample 7"] show ?thesis by blast
qed

subsection \<open>How the log is written\<close>

text \<open>
  Claim C9, as stated, fails: the append opens the log file itself for writing.  Between
  the truncation and the end of the write, the file is neither the old log nor the new
  one; a reader that loads it then finds no log at all.
\<close>

theorem atomic_write_counterexample:
  "\<not> atomic_write one_sample_storage (observable_states (sample 1) one_sample_storage)
   \<and> log_file (hd (observable_states (sample 1) one_sample_storage)) = NotJson
   \<and> load_log (hd (observable_states (sample 1) one_sample_storage)) = []
   \<and> load_log one_sample_storage = [sample 0]"
  by code_simp

text \<open>
  Claim C9, amended.  When the log file can be opened for writing, the append persists the
  full sequence in place: it truncates the log file, then writes the whole bounded
  sequence into it.  The truncated file loads as the empty log; the file after the write
  loads as the full sequence.
\<close>

theorem write_in_place:
  assumes "log_writable s"
  shows "append_trace e s =
       Inr [s\<lparr>log_file := NotJson\<rparr>, s\<lparr>log_file := Json (PList (append_bounded (load_log s) e))\<rparr>]
     \<and> append_sample e s = Inr (s\<lparr>log_file := Json (PList (append_bounded (load_log s) e))\<rparr>)
     \<and> load_log (s\<lparr>log_file := NotJson\<rparr>) = []
     \<and> load_log (s\<lparr>log_file := Json (PList (append_bounded (load_log s) e))\<rparr>)
         = append_bounded (load_log s) e"
  using assms
  by (simp add: append_trace_def append_sample_def write_log_def load_log_def)

theorem write_in_place_witness:
  "append_trace (sample 1) one_sample_storage =
     Inr [one_sample_storage\<lparr>log_file := NotJson\<rparr>,
          one_sample_storage\<lparr>log_file := Json (PList [sample 0, sample 1])\<rparr>]"
proof -
  have w: "log_writable one_sample_storage" by (simp add: one_sample_storage_def)
  have "append_bounded (load_log one_sample_storage) (sample 1) = [sample 0, sample 1]"
    by (simp add: one_sample_storage_def load_log_def append_bounded_def MAX_KEEP_def)
  with write_in_place [OF w, of "sample 1"] show ?thesis by simp
qed

lemma log_example:
  "log_obstruction_fraction_5min example_runtime (Fetched (boundary_payload 1 (1 / 100))) 0
     ''2026-01-01T00:00:00.000001Z'' fresh_storage =
   Inr (fresh_storage\<lparr>log_file := Json (PList
     [PDict [(''timestamp'', PStr ''2026-01-01T00:00:00.000001Z''),
             (''obstruction_fraction'', PFloat (Fin (1 / 100))),
             (''obstruction_percent'', PFloat (Fin 1))]])\<rparr>)"
  by code_simp

section \<open>Properties of the scheduler\<close>

subsection \<open>The minute a wall-clock time lies in\<close>

lemma two_digits_inj:
  assumes "two_digits a = two_digits b" "a < 100" "b < 100"
  shows "a = b"
proof -
  from assms(1) have c: "char_of (48 + a div 10) = (char_of (48 + b div 10) :: char)"
    "char_of (48 + a mod 10) = (char_of (48 + b mod 10) :: char)"
    by (simp_all add: two_digits_def)
  from c(1) have "(of_char (char_of (48 + a div 10) :: char) :: nat)
      = of_char (char_of (48 + b div 10) :: char)" by simp
  with assms(2,3) have d: "a div 10 = b div 10" by (simp add: of_char_of)
  from c(2) have "(of_char (char_of (48 + a mod 10) :: char) :: nat)
      = of_char (char_of (48 + b mod 10) :: char)" by simp
  then have m: "a mod 10 = b mod 10" by (simp add: of_char_of)
  have "a = a div 10 * 10 + a mod 10" by simp
  also have "\<dots> = b div 10 * 10 + b mod 10" by (simp only: d m)
  also have "\<dots> = b" by simp
  finally show ?thesis .
qed

lemma strftime_HM_inj:
  assumes "strftime_HM a = strftime_HM b"
  shows "a div 3600 mod 24 = b div 3600 mod 24 \<and> a div 60 mod 60 = b div 60 mod 60"
proof -
  have l: "\<And>n. length (two_digits n) = 2" by (simp add: two_digits_def)
  from assms have "two_digits (a div 3600 mod 24) = two_digits (b div 3600 mod 24)"
    "two_digits (a div 60 mod 60) = two_digits (b div 60 mod 60)"
    by (simp_all add: strftime_HM_def l)
  then show ?thesis by (auto intro!: two_digits_inj)
qed

lemma div_mod_determine:
  fixes q r :: nat
  assumes "q div n = r div n" "q mod n = r mod n"
  shows "q = r"
proof -
  have "q = q div n * n + q mod n" by simp
  also have "\<dots> = r div n * n + r mod n" by (simp only: assms)
  also have "\<dots> = r" by simp
  finally show ?thesis .
qed

lemma same_minute:
  assumes "in_minute day hm a" "in_minute day hm b"
  shows "a div 60 = b div 60"
proof -
  from assms have d: "a div 86400 = b div 86400" and h: "strftime_HM a = strftime_HM b"
    by (simp_all add: in_minute_def)
  from strftime_HM_inj [OF h] have
    hh: "a div 3600 mod 24 = b div 3600 mod 24" and mm: "a div 60 mod 60 = b div 60 mod 60"
    by simp_all
  have e: "\<And>t::nat. t div 86400 = t div 60 div 60 div 24" "\<And>t::nat. t div 3600 = t div 60 div 60"
    by (simp_all add: div_mult2_eq [symmetric])
  have "a div 60 div 60 div 24 = b div 60 div 60 div 24" using d by (simp only: e)
  moreover have "a div 60 div 60 mod 24 = b div 60 div 60 mod 24" using hh by (simp only: e)
  ultimately have "a div 60 div 60 = b div 60 div 60" by (rule div_mod_determine)
  then show ?thesis using mm by (rule div_mod_determine)
qed

lemma in_minute_cong:
  assumes "a div 60 = b div 60"
  shows "in_minute day hm a = in_minute day hm b"
proof -
  have "a div 86400 = a div 60 div 1440" "b div 86400 = b div 60 div 1440"
    "a div 3600 = a div 60 div 60" "b div 3600 = b div 60 div 60"
    by (simp_all add: div_mult2_eq [symmetric])
  with assms show ?thesis by (simp add: in_minute_def strftime_HM_def)
qed

lemma in_minute_convex:
  assumes "in_minute day hm a" "in_minute day hm c" "a \<le> b" "b \<le> c"
  shows "in_minute day hm b"
proof -
  have ac: "a div 60 = c div 60" using assms(1,2) by (rule same_minute)
  have "a div 60 \<le> b div 60" using assms(3) by (rule div_le_mono)
  moreover have "b div 60 \<le> c div 60" using assms(4) by (rule div_le_mono)
  then have "b div 60 \<le> a div 60" by (simp only: ac)
  ultimately have "a div 60 = b div 60" by (rule order_antisym)
  then have "in_minute day hm a = in_minute day hm b" by (rule in_minute_cong)
  with assms(1) show ?thesis by simp
qed

subsection \<open>What one iteration does to the resets\<close>

lemma watch_point_not_reset_time: "''00:01'' \<notin> set RESET_TIMES"
  by (simp add: RESET_TIMES_def)

lemma keepalive_step_fired: "last_reset_times (snd (keepalive_step rt tk w)) = last_reset_times w"
  by (simp add: keepalive_step_def)

lemma keepalive_step_no_reset: "filter is_reset (fst (keepalive_step rt tk w)) = []"
  by (simp add: keepalive_step_def is_reset_def)

lemma obstruction_step_no_reset: "filter is_reset (fst (obstruction_step rt tk w)) = []"
  by (simp add: obstruction_step_def is_reset_def split: sum.splits)

lemma obstruction_step_fired:
  "snd (obstruction_step rt tk w) = Inr w' \<Longrightarrow> last_reset_times w' = last_reset_times w"
  by (auto simp: obstruction_step_def split: sum.splits if_splits)

lemma reset_step_count:
  "length (filter is_reset (fst (reset_step tk w))) =
     (if strftime_HM (tk_utc tk) \<in> set RESET_TIMES
         \<and> strftime_HM (tk_utc tk) \<notin> last_reset_times w then 1 else 0)"
  by (simp add: reset_step_def Let_def is_reset_def)

lemma reset_step_fired:
  "last_reset_times (snd (reset_step tk w)) =
     (if strftime_HM (tk_utc tk) \<in> set RESET_TIMES
      then insert (strftime_HM (tk_utc tk)) (last_reset_times w) else last_reset_times w)"
  by (auto simp: reset_step_def Let_def)

lemma reset_step_outcome:
  "snd (reset_step (tk\<lparr>tk_reset := out\<rparr>) w) = snd (reset_step tk w)"
  by (simp add: reset_step_def Let_def)

lemma clear_step_fired:
  "last_reset_times (clear_step tk w) =
     (if strftime_HM (tk_utc tk) = ''00:01'' then {} else last_reset_times w)"
  by (simp add: clear_step_def)

lemma bg_step_unfold:
  "bg_step rt tk w =
     (fst (keepalive_step rt tk w) @ fst (reset_step tk (snd (keepalive_step rt tk w)))
        @ fst (obstruction_step rt tk
                 (clear_step tk (snd (reset_step tk (snd (keepalive_step rt tk w)))))),
      snd (obstruction_step rt tk
             (clear_step tk (snd (reset_step tk (snd (keepalive_step rt tk w)))))))"
  by (simp add: bg_step_def Let_def split: prod.splits)

lemma bg_step_count:
  "length (filter is_reset (fst (bg_step rt tk w))) =
     (if strftime_HM (tk_utc tk) \<in> set RESET_TIMES
         \<and> strftime_HM (tk_utc tk) \<notin> last_reset_times w then 1 else 0)"
  by (simp only: bg_step_unfold fst_conv filter_append length_append keepalive_step_no_reset
      obstruction_step_no_reset reset_step_count keepalive_step_fired list.size add_0 add_0_right)

lemma bg_step_fired:
  assumes "snd (bg_step rt tk w) = Inr w'"
  shows "last_reset_times w' =
     (if strftime_HM (tk_utc tk) = ''00:01'' then {}
      else if strftime_HM (tk_utc tk) \<in> set RESET_TIMES
      then insert (strftime_HM (tk_utc tk)) (last_reset_times w) else last_reset_times w)"
proof -
  from assms have "snd (obstruction_step rt tk
             (clear_step tk (snd (reset_step tk (snd (keepalive_step rt tk w)))))) = Inr w'"
    by (simp only: bg_step_unfold snd_conv)
  from obstruction_step_fired [OF this] show ?thesis
    by (simp only: clear_step_fired reset_step_fired keepalive_step_fired)
qed

lemma resets_at_Nil: "resets_at day hm (fst (bg_loop rt [] w)) = 0"
  by (simp add: resets_at_def)

lemma filter_stamped:
  "length (filter ((\<lambda>(t, e). is_reset e \<and> P t) \<circ> Pair u) ev) =
     (if P u then length (filter is_reset ev) else 0)"
  by (induction ev) auto

lemma filter_stamped_all:
  "filter ((\<lambda>(t, e). is_reset e) \<circ> Pair u) ev = filter is_reset ev"
  by (induction ev) auto

lemma resets_at_Cons:
  "resets_at day hm (fst (bg_loop rt (tk # tks) w)) =
     (if in_minute day hm (tk_utc tk) then length (filter is_reset (fst (bg_step rt tk w))) else 0)
     + (case snd (bg_step rt tk w) of Inl e \<Rightarrow> 0
        | Inr w' \<Rightarrow> resets_at day hm (fst (bg_loop rt tks w')))"
  by (simp add: resets_at_def filter_stamped split: prod.splits sum.splits)

lemma resets_Cons:
  "resets (fst (bg_loop rt (tk # tks) w)) =
     length (filter is_reset (fst (bg_step rt tk w)))
     + (case snd (bg_step rt tk w) of Inl e \<Rightarrow> 0
        | Inr w' \<Rightarrow> resets (fst (bg_loop rt tks w')))"
  by (simp add: resets_def filter_stamped_all split: prod.splits sum.splits)

lemma no_tick_no_reset:
  "\<forall>tk \<in> set tks. \<not> in_minute day hm (tk_utc tk) \<Longrightarrow>
     resets_at day hm (fst (bg_loop rt tks w)) = 0"
proof (induction tks arbitrary: w)
  case Nil
  show ?case by (rule resets_at_Nil)
next
  case (Cons tk tks)
  then show ?case by (simp add: resets_at_Cons del: bg_loop.simps split: sum.splits)
qed

subsection \<open>A reset fires once\<close>

lemma fired_no_reset:
  assumes hm: "hm \<in> set RESET_TIMES"
  shows "hm \<in> last_reset_times w \<Longrightarrow> sorted (map tk_utc tks) \<Longrightarrow> in_minute day hm t0
     \<Longrightarrow> \<forall>tk \<in> set tks. t0 \<le> tk_utc tk
     \<Longrightarrow> resets_at day hm (fst (bg_loop rt tks w)) = 0"
proof (induction tks arbitrary: w)
  case Nil
  show ?case by (rule resets_at_Nil)
next
  case (Cons tk tks)
  have later: "\<forall>tk' \<in> set tks. tk_utc tk \<le> tk_utc tk'" using Cons.prems(2) by simp
  show ?case
  proof (cases "in_minute day hm (tk_utc tk)")
    case True
    then have s: "strftime_HM (tk_utc tk) = hm" by (simp add: in_minute_def)
    have here: "length (filter is_reset (fst (bg_step rt tk w))) = 0"
      using Cons.prems(1) by (simp add: bg_step_count s)
    have rest: "resets_at day hm (fst (bg_loop rt tks w')) = 0"
      if w': "snd (bg_step rt tk w) = Inr w'" for w'
    proof -
      from hm watch_point_not_reset_time have "hm \<noteq> ''00:01''" by auto
      with bg_step_fired [OF w'] hm have "hm \<in> last_reset_times w'" by (simp add: s)
      moreover have "sorted (map tk_utc tks)" using Cons.prems(2) by simp
      moreover have "\<forall>tk' \<in> set tks. t0 \<le> tk_utc tk'" using Cons.prems(4) by simp
      ultimately show ?thesis using Cons.prems(3) by (intro Cons.IH)
    qed
    show ?thesis
      by (simp only: resets_at_Cons here) (simp add: rest split: sum.splits)
  next
    case False
    have "\<forall>tk' \<in> set tks. \<not> in_minute day hm (tk_utc tk')"
    proof
      fix tk' assume m: "tk' \<in> set tks"
      show "\<not> in_minute day hm (tk_utc tk')"
      proof
        assume "in_minute day hm (tk_utc tk')"
        with Cons.prems(3) have "in_minute day hm (tk_utc tk)"
        proof (rule in_minute_convex)
          show "t0 \<le> tk_utc tk" using Cons.prems(4) by simp
          show "tk_utc tk \<le> tk_utc tk'" using later m by simp
        qed
        with False show False by simp
      qed
    qed
    then have "resets_at day hm (fst (bg_loop rt tks w')) = 0" for w'
      by (rule no_tick_no_reset)
    with False show ?thesis
      by (simp only: resets_at_Cons) (simp split: sum.splits)
  qed
qed

lemma at_most_once:
  assumes hm: "hm \<in> set RESET_TIMES"
  shows "sorted (map tk_utc tks) \<Longrightarrow> resets_at day hm (fst (bg_loop rt tks w)) \<le> 1"
proof (induction tks arbitrary: w)
  case Nil
  show ?case by (simp only: resets_at_Nil)
next
  case (Cons tk tks)
  have tl: "sorted (map tk_utc tks)" using Cons.prems by simp
  have later: "\<forall>tk' \<in> set tks. tk_utc tk \<le> tk_utc tk'" using Cons.prems by simp
  show ?case
  proof (cases "in_minute day hm (tk_utc tk)")
    case True
    then have s: "strftime_HM (tk_utc tk) = hm" by (simp add: in_minute_def)
    have here: "length (filter is_reset (fst (bg_step rt tk w))) \<le> 1"
      by (simp add: bg_step_count)
    have rest: "resets_at day hm (fst (bg_loop rt tks w')) = 0"
      if w': "snd (bg_step rt tk w) = Inr w'" for w'
    proof -
      from hm watch_point_not_reset_time have "hm \<noteq> ''00:01''" by auto
      with bg_step_fired [OF w'] hm have "hm \<in> last_reset_times w'" by (simp add: s)
      then show ?thesis using tl True later by (rule fired_no_reset [OF hm])
    qed
    from here show ?thesis
      by (simp only: resets_at_Cons) (simp add: True rest split: sum.splits)
  next
    case False
    have "resets_at day hm (fst (bg_loop rt tks w')) \<le> 1" for w'
      using tl by (rule Cons.IH)
    with False show ?thesis
      by (simp only: resets_at_Cons) (simp split: sum.splits)
  qed
qed

lemma fired_minute_no_reset:
  assumes hm: "hm \<in> set RESET_TIMES"
  shows "hm \<in> last_reset_times w \<Longrightarrow> \<forall>tk \<in> set tks. strftime_HM (tk_utc tk) = hm
     \<Longrightarrow> resets (fst (bg_loop rt tks w)) = 0"
proof (induction tks arbitrary: w)
  case Nil
  show ?case by (simp add: resets_def)
next
  case (Cons tk tks)
  have s: "strftime_HM (tk_utc tk) = hm" using Cons.prems(2) by simp
  have here: "length (filter is_reset (fst (bg_step rt tk w))) = 0"
    using Cons.prems(1) by (simp add: bg_step_count s)
  have rest: "resets (fst (bg_loop rt tks w')) = 0"
    if w': "snd (bg_step rt tk w) = Inr w'" for w'
  proof -
    from hm watch_point_not_reset_time have "hm \<noteq> ''00:01''" by auto
    with bg_step_fired [OF w'] hm have "hm \<in> last_reset_times w'" by (simp add: s)
    moreover have "\<forall>tk \<in> set tks. strftime_HM (tk_utc tk) = hm" using Cons.prems(2) by simp
    ultimately show ?thesis by (rule Cons.IH)
  qed
  show ?case
    by (simp only: resets_Cons here) (simp add: rest split: sum.splits)
qed

lemma once_in_minute:
  assumes hm: "hm \<in> set RESET_TIMES"
    and ne: "tks \<noteq> []"
    and all: "\<forall>tk \<in> set tks. strftime_HM (tk_utc tk) = hm"
    and fresh: "hm \<notin> last_reset_times w"
  shows "resets (fst (bg_loop rt tks w)) = 1"
proof -
  from ne obtain tk tks' where t: "tks = tk # tks'" by (cases tks) auto
  have s: "strftime_HM (tk_utc tk) = hm" using all t by simp
  have here: "length (filter is_reset (fst (bg_step rt tk w))) = 1"
    using hm fresh by (simp add: bg_step_count s)
  have rest: "resets (fst (bg_loop rt tks' w')) = 0"
    if w': "snd (bg_step rt tk w) = Inr w'" for w'
  proof -
    from hm watch_point_not_reset_time have "hm \<noteq> ''00:01''" by auto
    with bg_step_fired [OF w'] hm have "hm \<in> last_reset_times w'" by (simp add: s)
    moreover have "\<forall>tk \<in> set tks'. strftime_HM (tk_utc tk) = hm" using all t by simp
    ultimately show ?thesis by (rule fired_minute_no_reset [OF hm])
  qed
  show ?thesis
    unfolding t by (simp only: resets_Cons here) (simp add: rest split: sum.splits)
qed

lemma steps_outcome:
  "keepalive_step rt (tk\<lparr>tk_reset := out\<rparr>) w = keepalive_step rt tk w"
  "clear_step (tk\<lparr>tk_reset := out\<rparr>) w = clear_step tk w"
  "obstruction_step rt (tk\<lparr>tk_reset := out\<rparr>) w = obstruction_step rt tk w"
  by (simp_all add: keepalive_step_def clear_step_def obstruction_step_def split: sum.splits)

lemma bg_step_outcome:
  "snd (bg_step rt (tk\<lparr>tk_reset := out\<rparr>) w) = snd (bg_step rt tk w)"
  by (simp only: bg_step_unfold snd_conv steps_outcome reset_step_outcome)

text \<open>
  Claim C5.  Let \<open>hm\<close> be one of the two configured instants.  On a run whose wall clock
  never goes back, the reset fires at most once while the clock shows \<open>hm\<close> on any one
  day.  On ticks that all fall in a minute showing \<open>hm\<close> the reset is invoked at most
  once, and exactly once when \<open>hm\<close> has not fired yet, however many ticks there are.  After an
  iteration at \<open>hm\<close> the instant is marked as fired, and the locals are the same whatever
  the reset returned.  After an iteration at the watch-point 00:01 the fired-set is empty,
  so that the next iteration at \<open>hm\<close> invokes the reset again.
\<close>

theorem reset_once_per_instant:
  assumes "hm \<in> set RESET_TIMES"
  shows "(sorted (map tk_utc tks) \<longrightarrow> resets_at day hm (fst (bg_loop rt tks w)) \<le> 1)
     \<and> ((\<forall>tk \<in> set tks. strftime_HM (tk_utc tk) = hm)
          \<longrightarrow> resets (fst (bg_loop rt tks w)) \<le> 1)
     \<and> (tks \<noteq> [] \<and> (\<forall>tk \<in> set tks. strftime_HM (tk_utc tk) = hm) \<and> hm \<notin> last_reset_times w
          \<longrightarrow> resets (fst (bg_loop rt tks w)) = 1)
     \<and> (\<forall>w'. strftime_HM (tk_utc tk) = hm \<and> snd (bg_step rt tk w) = Inr w'
          \<longrightarrow> hm \<in> last_reset_times w' \<and> snd (bg_step rt (tk\<lparr>tk_reset := out\<rparr>) w) = Inr w')
     \<and> (\<forall>w'. strftime_HM (tk_utc tk) = ''00:01'' \<and> snd (bg_step rt tk w) = Inr w'
          \<longrightarrow> last_reset_times w' = {}
              \<and> (strftime_HM (tk_utc tk2) = hm \<longrightarrow> resets (fst (bg_loop rt [tk2] w')) = 1))"
proof (intro conjI allI impI)
  assume "sorted (map tk_utc tks)"
  then show "resets_at day hm (fst (bg_loop rt tks w)) \<le> 1"
    by (rule at_most_once [OF assms])
next
  assume all: "\<forall>tk \<in> set tks. strftime_HM (tk_utc tk) = hm"
  show "resets (fst (bg_loop rt tks w)) \<le> 1"
  proof (cases "hm \<in> last_reset_times w")
    case True
    then have "resets (fst (bg_loop rt tks w)) = 0"
      using all by (rule fired_minute_no_reset [OF assms])
    then show ?thesis by simp
  next
    case False
    show ?thesis
    proof (cases "tks = []")
      case True
      then show ?thesis by (simp add: resets_def)
    next
      case ne: False
      have "resets (fst (bg_loop rt tks w)) = 1"
        using assms ne all False by (rule once_in_minute)
      then show ?thesis by simp
    qed
  qed
next
  assume "tks \<noteq> [] \<and> (\<forall>tk \<in> set tks. strftime_HM (tk_utc tk) = hm) \<and> hm \<notin> last_reset_times w"
  then show "resets (fst (bg_loop rt tks w)) = 1"
    using once_in_minute [OF assms, of tks w rt] by blast
next
  fix w' assume a: "strftime_HM (tk_utc tk) = hm \<and> snd (bg_step rt tk w) = Inr w'"
  from assms watch_point_not_reset_time have "hm \<noteq> ''00:01''" by auto
  with a assms bg_step_fired [of rt tk w w'] show "hm \<in> last_reset_times w'" by simp
  from a show "snd (bg_step rt (tk\<lparr>tk_reset := out\<rparr>) w) = Inr w'"
    by (simp only: bg_step_outcome)
next
  fix w' assume a: "strftime_HM (tk_utc tk) = ''00:01'' \<and> snd (bg_step rt tk w) = Inr w'"
  with bg_step_fired [of rt tk w w'] show e: "last_reset_times w' = {}" by simp
  assume "strftime_HM (tk_utc tk2) = hm"
  then show "resets (fst (bg_loop rt [tk2] w')) = 1"
    using e by (intro once_in_minute [OF assms]) simp_all
qed

lemma digit_chars:
  "char_of (48::nat) = CHR ''0''" "char_of (49::nat) = CHR ''1''" "char_of (50::nat) = CHR ''2''"
  by code_simp+

lemma midnight_minute:
  "strftime_HM 1767225600 = ''00:00''"
  "strftime_HM 1767225601 = ''00:00''"
  "strftime_HM 1767225659 = ''00:00''"
  by (simp_all add: strftime_HM_def two_digits_def digit_chars)

lemma midnight_facts:
  "''00:00'' \<in> set RESET_TIMES"
  "sorted (map tk_utc midnight_ticks)"
  "midnight_ticks \<noteq> []"
  "\<forall>tk \<in> set midnight_ticks. strftime_HM (tk_utc tk) = ''00:00''"
  "''00:00'' \<notin> last_reset_times idle_world"
  by (simp_all add: RESET_TIMES_def midnight_ticks_def tick_at_def idle_world_def bg_init_def
      midnight_minute)

theorem reset_once_per_instant_witness:
  "resets (fst (bg_loop example_runtime midnight_ticks idle_world)) = 1
   \<and> resets_at 20454 ''00:00'' (fst (bg_loop example_runtime midnight_ticks idle_world)) \<le> 1"
  using reset_once_per_instant [of "''00:00''" midnight_ticks 20454 example_runtime idle_world]
    midnight_facts
  by blast

lemma midnight_run:
  "fst (bg_loop example_runtime midnight_ticks idle_world) =
     [(1767225600, KeepAlive [(''ok'', PBool False),
                              (''error'', PStr ''failed to connect to all addresses'')]),
      (1767225600, Reset [(''ok'', PBool False), (''error'', PStr ''unavailable'')]),
      (1767225600, ObstructionLog)]"
  by (simp add: midnight_ticks_def idle_world_def bg_init_def tick_at_def bg_step_unfold
      keepalive_step_def reset_step_def clear_step_def obstruction_step_def
      log_obstruction_fraction_5min_def do_keepalive_def keepalive_result_def do_status_def
      do_reset_obstruction_map_def unreachable_def get_def get_default_def midnight_minute
      RESET_TIMES_def AUTO_KEEPALIVE_SEC_def OBSTRUCTION_5MIN_SEC_def Let_def)

subsection \<open>Keep-alive\<close>

lemma next_ka_later_steps:
  "next_ka (snd (reset_step tk w)) = next_ka w"
  "next_ka (clear_step tk w) = next_ka w"
  "snd (obstruction_step rt tk w) = Inr w' \<Longrightarrow> next_ka w' = next_ka w"
  by (auto simp: reset_step_def clear_step_def obstruction_step_def Let_def
      split: sum.splits if_splits)

lemma keepalive_step_due:
  assumes "next_ka w \<le> tk_now tk"
  shows "fst (keepalive_step rt tk w) =
           [KeepAlive (do_keepalive rt (tk_ka_fetch tk) (tk_ka_status_ts tk) (tk_ka_ts tk))]"
    and "next_ka (snd (keepalive_step rt tk w)) = tk_now tk + 120"
  using assms by (simp_all add: keepalive_step_def AUTO_KEEPALIVE_SEC_def)

lemma bg_step_next_ka:
  assumes "next_ka w \<le> tk_now tk" "snd (bg_step rt tk w) = Inr w'"
  shows "next_ka w' = tk_now tk + 120"
proof -
  from assms(2) have "snd (obstruction_step rt tk
      (clear_step tk (snd (reset_step tk (snd (keepalive_step rt tk w)))))) = Inr w'"
    by (simp only: bg_step_unfold snd_conv)
  from next_ka_later_steps(3) [OF this] show ?thesis
    by (simp only: next_ka_later_steps(1,2) keepalive_step_due(2) [OF assms(1)])
qed

lemma do_status_failure:
  assumes "\<forall>raw. f \<noteq> Fetched raw"
  shows "\<exists>msg. do_status rt f sts = [(''ok'', PBool False), (''error'', PStr msg)]"
  using assms by (cases f) (simp_all add: do_status_def)

lemma keepalive_result_failure:
  assumes "\<not> truthy (get r ''ok'')"
  shows "keepalive_result r ts =
     [(''ok'', PBool False),
      (''error'', case map_of r ''error'' of None \<Rightarrow> PStr ''keepalive failed'' | Some m \<Rightarrow> m)]"
  using assms by (simp add: keepalive_result_def get_default_def)

text \<open>
  Claim C8.  When the status fetch fails (the import fails, no status function exists, or
  the call raises), \<open>do_status\<close> returns \<open>ok\<close> false with a message and \<open>do_keepalive\<close>
  returns \<open>ok\<close> false with that message; on a status result that is not ok and carries no
  message, the error is \<open>keepalive failed\<close>.  When the keep-alive is due, the iteration
  calls \<open>do_keepalive\<close> once and sets the next deadline to the time of the iteration plus
  120 seconds, whatever the call returned.
\<close>

theorem keepalive_failure:
  "((\<forall>raw. f \<noteq> Fetched raw) \<longrightarrow>
      (\<exists>msg. do_status rt f sts = [(''ok'', PBool False), (''error'', PStr msg)]
         \<and> do_keepalive rt f sts ts = [(''ok'', PBool False), (''error'', PStr msg)]))
   \<and> (\<not> truthy (get r ''ok'') \<longrightarrow>
        keepalive_result r ts =
          [(''ok'', PBool False),
           (''error'', case map_of r ''error'' of None \<Rightarrow> PStr ''keepalive failed'' | Some m \<Rightarrow> m)])
   \<and> (next_ka w \<le> tk_now tk \<longrightarrow>
        fst (keepalive_step rt tk w) =
          [KeepAlive (do_keepalive rt (tk_ka_fetch tk) (tk_ka_status_ts tk) (tk_ka_ts tk))]
        \<and> next_ka (snd (keepalive_step rt tk w)) = tk_now tk + 120
        \<and> (\<forall>w'. snd (bg_step rt tk w) = Inr w' \<longrightarrow> next_ka w' = tk_now tk + 120))"
proof (intro conjI impI allI)
  assume "\<forall>raw. f \<noteq> Fetched raw"
  then obtain msg where m: "do_status rt f sts = [(''ok'', PBool False), (''error'', PStr msg)]"
    using do_status_failure by blast
  then have "do_keepalive rt f sts ts = [(''ok'', PBool False), (''error'', PStr msg)]"
    by (simp add: do_keepalive_def keepalive_result_def get_def get_default_def)
  with m show "\<exists>msg. do_status rt f sts = [(''ok'', PBool False), (''error'', PStr msg)]
         \<and> do_keepalive rt f sts ts = [(''ok'', PBool False), (''error'', PStr msg)]"
    by blast
next
  assume "\<not> truthy (get r ''ok'')"
  then show "keepalive_result r ts =
          [(''ok'', PBool False),
           (''error'', case map_of r ''error'' of None \<Rightarrow> PStr ''keepalive failed'' | Some m \<Rightarrow> m)]"
    by (rule keepalive_result_failure)
next
  assume d: "next_ka w \<le> tk_now tk"
  show "fst (keepalive_step rt tk w) =
          [KeepAlive (do_keepalive rt (tk_ka_fetch tk) (tk_ka_status_ts tk) (tk_ka_ts tk))]"
    using d by (rule keepalive_step_due(1))
  show "next_ka (snd (keepalive_step rt tk w)) = tk_now tk + 120"
    using d by (rule keepalive_step_due(2))
  fix w' assume "snd (bg_step rt tk w) = Inr w'"
  with d show "next_ka w' = tk_now tk + 120" by (rule bg_step_next_ka)
qed

lemma keepalive_example:
  "do_keepalive example_runtime unreachable 1767225600 1767225600 =
     [(''ok'', PBool False), (''error'', PStr ''failed to connect to all addresses'')]"
  by (simp add: do_keepalive_def keepalive_result_def do_status_def unreachable_def get_def
      get_default_def)

theorem keepalive_failure_witness:
  "keepalive_result [(''ok'', PBool False)] 0 =
     [(''ok'', PBool False), (''error'', PStr ''keepalive failed'')]
   \<and> next_ka (snd (keepalive_step example_runtime
         (tick_at 1767225600 1767225600 unreachable ResetDone) idle_world)) = 1767225720"
proof -
  note t = keepalive_failure [where f = unreachable and rt = example_runtime
      and r = "[(''ok'', PBool False)]" and ts = 0 and w = idle_world
      and tk = "tick_at 1767225600 1767225600 unreachable ResetDone"]
  have a: "\<not> truthy (get [(''ok'', PBool False)] ''ok'')"
    by (simp add: get_def get_default_def)
  have b: "next_ka idle_world \<le> tk_now (tick_at 1767225600 1767225600 unreachable ResetDone)"
    by (simp add: idle_world_def bg_init_def tick_at_def)
  from t a have "keepalive_result [(''ok'', PBool False)] 0 =
     [(''ok'', PBool False),
      (''error'', case map_of [(''ok'', PBool False)] ''error'' of
                    None \<Rightarrow> PStr ''keepalive failed'' | Some m \<Rightarrow> m)]" by blast
  moreover from t b have "next_ka (snd (keepalive_step example_runtime
         (tick_at 1767225600 1767225600 unreachable ResetDone) idle_world))
       = tk_now (tick_at 1767225600 1767225600 unreachable ResetDone) + 120" by blast
  ultimately show ?thesis by (simp add: tick_at_def)
qed

section \<open>Properties of the request handler\<close>

lemma api_route_cases:
  "(m, p) \<in> set api_routes \<longleftrightarrow>
     (m = GET \<and> (p = ''/api/health'' \<or> p = ''/api/status''))
     \<or> (m = POST \<and> (p = ''/api/keepalive'' \<or> p = ''/api/reset''))"
  by (auto simp: api_routes_def)

text \<open>
  Claim C10.  A request to an API path with the method that the path supports is answered
  with the status code 200 and a JSON body, also when the body reports a failure: the
  body of \<open>/api/status\<close> is whatever \<open>do_status\<close> returns.  A response with the code 404
  is the not-found response of \<open>do_GET\<close> or \<open>do_POST\<close> and is never the answer to such a
  request.
\<close>

theorem api_always_200:
  "((m, p) \<in> set api_routes \<longrightarrow>
      resp_code (handle rt env m p) = 200 \<and> is_json (handle rt env m p))
   \<and> (resp_code (handle rt env m p) = 404 \<longrightarrow>
        (m, p) \<notin> set api_routes \<and> (m = GET \<or> m = POST)
        \<and> (m = GET \<longrightarrow> p \<noteq> ''/'' \<and> p \<noteq> ''/index.html'')
        \<and> handle rt env m p = not_found)
   \<and> (m = GET \<and> p = ''/api/status'' \<longrightarrow>
        resp_body (handle rt env m p) = JsonBody (do_status rt (rq_fetch env) (rq_status_ts env)))"
proof (intro conjI impI)
  assume "(m, p) \<in> set api_routes"
  then consider "m = GET" "p = ''/api/health''" | "m = GET" "p = ''/api/status''"
    | "m = POST" "p = ''/api/keepalive''" | "m = POST" "p = ''/api/reset''"
    by (auto simp: api_route_cases)
  then have "resp_code (handle rt env m p) = 200 \<and> is_json (handle rt env m p)"
    by cases (simp_all add: handle_def do_GET_def do_POST_def json_response_def is_json_def)
  then show "resp_code (handle rt env m p) = 200" "is_json (handle rt env m p)" by simp_all
next
  assume c: "resp_code (handle rt env m p) = 404"
  show "m = GET \<or> m = POST"
    using c by (cases m) (simp_all add: handle_def unsupported_method_def)
  show "(m, p) \<notin> set api_routes"
    using c by (cases m) (auto simp: api_route_cases handle_def do_GET_def do_POST_def
        json_response_def unsupported_method_def split: if_splits)
  show "handle rt env m p = not_found"
    using c by (cases m) (auto simp: handle_def do_GET_def do_POST_def
        json_response_def unsupported_method_def split: if_splits)
  show "p \<noteq> ''/''" if g: "m = GET"
  proof
    assume "p = ''/''"
    with c g show False by (simp add: handle_def do_GET_def)
  qed
  show "p \<noteq> ''/index.html''" if g: "m = GET"
  proof
    assume "p = ''/index.html''"
    with c g show False by (simp add: handle_def do_GET_def)
  qed
next
  assume "m = GET \<and> p = ''/api/status''"
  then show "resp_body (handle rt env m p) = JsonBody (do_status rt (rq_fetch env) (rq_status_ts env))"
    by (simp add: handle_def do_GET_def json_response_def)
qed

theorem api_always_200_witness:
  "resp_code (handle example_runtime failing_env GET ''/api/status'') = 200
   \<and> is_json (handle example_runtime failing_env GET ''/api/status'')
   \<and> resp_body (handle example_runtime failing_env GET ''/api/status'') =
       JsonBody [(''ok'', PBool False), (''error'', PStr ''failed to connect to all addresses'')]"
proof -
  note t = api_always_200 [where m = GET and p = "''/api/status''" and rt = example_runtime
      and env = failing_env]
  have "(GET, ''/api/status'') \<in> set api_routes" by (simp add: api_routes_def)
  with t have "resp_code (handle example_runtime failing_env GET ''/api/status'') = 200
     \<and> is_json (handle example_runtime failing_env GET ''/api/status'')
     \<and> resp_body (handle example_runtime failing_env GET ''/api/status'') =
         JsonBody (do_status example_runtime (rq_fetch failing_env) (rq_status_ts failing_env))"
    by blast
  then show ?thesis by (simp add: failing_env_def unreachable_def do_status_def)
qed

lemma not_found_examples:
  "handle rt env POST ''/api/status'' = not_found"
  "handle rt env GET ''/api/reset'' = not_found"
  "handle rt env GET ''/api/nope'' = not_found"
  "handle rt env (OtherMethod ''PUT'') ''/api/status'' = unsupported_method"
  by (simp_all add: handle_def do_GET_def do_POST_def)

end
